theory Spec2Isabelle
  imports Main "HOL-Library.Sublist" "HOL-Library.Char_ord" "HOL-Library.List_Lexorder"
begin

section \<open>JavaScript strings, values and objects\<close>

text \<open>
  Strings are \<^typ>\<open>string\<close>; the registry traffic the proxy inspects is ASCII, where a
  \<^typ>\<open>char\<close> is one UTF-16 code unit. \<open>a < b\<close> on strings is the lexicographic order
  on code units (\<open>HOL-Library.List_Lexorder\<close> over \<open>HOL-Library.Char_ord\<close>), which is
  what JavaScript's \<open><\<close> does on two strings.
\<close>

definition startsWith :: "string \<Rightarrow> string \<Rightarrow> bool" where
  "startsWith s p = prefix p s"

definition endsWith :: "string \<Rightarrow> string \<Rightarrow> bool" where
  "endsWith s p = suffix p s"

fun js_includes :: "string \<Rightarrow> string \<Rightarrow> bool" where
  "js_includes [] p = (p = [])"
| "js_includes (c # cs) p = (prefix p (c # cs) \<or> js_includes cs p)"

definition lowerChar :: "char \<Rightarrow> char" where
  "lowerChar c =
     (if CHR ''A'' \<le> c \<and> c \<le> CHR ''Z'' then char_of (of_char c + (32::nat)) else c)"

definition toLowerCase :: "string \<Rightarrow> string" where
  "toLowerCase s = map lowerChar s"

text \<open>
  A value that crosses the event bus, and an object literal as its list of properties in
  insertion order. Reading a property the object does not have gives \<open>undefined\<close>.
\<close>

datatype js_value = JUndefined | JString string | JNumber int

type_synonym js_object = "(string \<times> js_value) list"

definition getProp :: "js_object \<Rightarrow> string \<Rightarrow> js_value" where
  "getProp obj k = (case map_of obj k of None \<Rightarrow> JUndefined | Some v \<Rightarrow> v)"

definition js_of :: "string option \<Rightarrow> js_value" where
  "js_of v = (case v of None \<Rightarrow> JUndefined | Some s \<Rightarrow> JString s)"

section \<open>Event emitter\<close>

text \<open>
  Node's \<open>EventEmitter\<close>: listeners in registration order, each registered under an event
  name. \<open>emit\<close> calls, synchronously and in order, every listener of that name with the
  payload. A listener acts on the state \<open>'s\<close> it closes over (for the proxy controller,
  the module-level \<open>state\<close> of registryProxy.js).
\<close>

type_synonym 's EventEmitter = "(string \<times> (js_object \<Rightarrow> 's \<Rightarrow> 's)) list"

definition on :: "'s EventEmitter \<Rightarrow> string \<Rightarrow> (js_object \<Rightarrow> 's \<Rightarrow> 's) \<Rightarrow> 's EventEmitter" where
  "on eventEmitter event listener = eventEmitter @ [(event, listener)]"

definition emit :: "'s EventEmitter \<Rightarrow> string \<Rightarrow> js_object \<Rightarrow> 's \<Rightarrow> 's" where
  "emit eventEmitter event payload s =
     fold (\<lambda>(name, listener) s'. if name = event then listener payload s' else s')
       eventEmitter s"

section \<open>Interceptor builder (interceptorBuilder.js)\<close>

record block_response =
  statusCode :: nat
  message :: string

text \<open>
  The per-request context of \<open>createRequestContext\<close>: its three closure variables and
  \<open>targetUrl\<close>. A header modifier mutates the request headers \<open>'rh\<close> in place; a body
  modifier returns a body \<open>'b\<close> and may mutate the response headers \<open>'h\<close> it is handed, so
  it is a function to the pair of both.
\<close>

record ('b, 'h, 'rh) RequestInterceptionContext =
  targetUrl :: string
  blockResponse :: "block_response option"
  reqheaderModificationFuncs :: "('rh \<Rightarrow> 'rh) list"
  modifyBodyFuncs :: "('b \<Rightarrow> 'h \<Rightarrow> 'b \<times> 'h) list"

definition createRequestContext :: "string \<Rightarrow> ('b, 'h, 'rh) RequestInterceptionContext" where
  "createRequestContext url =
     \<lparr> targetUrl = url, blockResponse = None,
       reqheaderModificationFuncs = [], modifyBodyFuncs = [] \<rparr>"

text \<open>
  \<open>blockMalwareSetup\<close>: sets the block response and emits \<open>malwareBlocked\<close> with the
  object literal of the source; \<open>now\<close> is the reading of \<open>Date.now()\<close>.
\<close>

definition malwareBlockedEvent :: "string option \<Rightarrow> string option \<Rightarrow> string \<Rightarrow> int \<Rightarrow> js_object" where
  "malwareBlockedEvent packageName version url now =
     [(''packageName'', js_of packageName),
      (''version'', js_of version),
      (''targetUrl'', JString url),
      (''timestamp'', JNumber now)]"

definition blockMalwareSetup ::
  "'s EventEmitter \<Rightarrow> int \<Rightarrow> string option \<Rightarrow> string option \<Rightarrow>
   ('b, 'h, 'rh) RequestInterceptionContext \<Rightarrow> 's \<Rightarrow>
   ('b, 'h, 'rh) RequestInterceptionContext \<times> 's" where
  "blockMalwareSetup eventEmitter now packageName version ctx s =
     (ctx\<lparr>blockResponse :=
        Some \<lparr> statusCode = 403, message = ''Forbidden - blocked by safe-chain'' \<rparr>\<rparr>,
      emit eventEmitter ''malwareBlocked''
        (malwareBlockedEvent packageName version (targetUrl ctx) now) s)"

definition ctx_modifyRequestHeaders ::
  "('rh \<Rightarrow> 'rh) \<Rightarrow> ('b, 'h, 'rh) RequestInterceptionContext \<Rightarrow>
   ('b, 'h, 'rh) RequestInterceptionContext" where
  "ctx_modifyRequestHeaders func ctx =
     ctx\<lparr>reqheaderModificationFuncs := reqheaderModificationFuncs ctx @ [func]\<rparr>"

definition ctx_modifyBody ::
  "('b \<Rightarrow> 'h \<Rightarrow> 'b \<times> 'h) \<Rightarrow> ('b, 'h, 'rh) RequestInterceptionContext \<Rightarrow>
   ('b, 'h, 'rh) RequestInterceptionContext" where
  "ctx_modifyBody func ctx = ctx\<lparr>modifyBodyFuncs := modifyBodyFuncs ctx @ [func]\<rparr>"

text \<open>
  The handler of \<open>build()\<close>. \<open>modifyRequestHeaders\<close> runs every function on the headers
  object when there is one. \<open>modifyBody\<close> is the loop of the source: \<open>modifiedBody\<close> is
  assigned the result of each function, and each function is called with \<open>body\<close>, the
  parameter, and the headers as the functions before it left them.
\<close>

definition modifyRequestHeaders ::
  "('b, 'h, 'rh) RequestInterceptionContext \<Rightarrow> 'rh option \<Rightarrow> 'rh option" where
  "modifyRequestHeaders ctx headers =
     (case headers of
        None \<Rightarrow> None
      | Some hs \<Rightarrow> Some (fold (\<lambda>func h. func h) (reqheaderModificationFuncs ctx) hs))"

fun modifyBody_loop :: "('b \<Rightarrow> 'h \<Rightarrow> 'b \<times> 'h) list \<Rightarrow> 'b \<Rightarrow> 'b \<Rightarrow> 'h \<Rightarrow> 'b \<times> 'h" where
  "modifyBody_loop [] body modifiedBody headers = (modifiedBody, headers)"
| "modifyBody_loop (func # funcs) body modifiedBody headers =
     (case func body headers of
        (modifiedBody', headers') \<Rightarrow> modifyBody_loop funcs body modifiedBody' headers')"

definition modifyBody :: "('b, 'h, 'rh) RequestInterceptionContext \<Rightarrow> 'b \<Rightarrow> 'h \<Rightarrow> 'b \<times> 'h" where
  "modifyBody ctx body headers = modifyBody_loop (modifyBodyFuncs ctx) body body headers"

definition modifiesResponse :: "('b, 'h, 'rh) RequestInterceptionContext \<Rightarrow> bool" where
  "modifiesResponse ctx = (length (modifyBodyFuncs ctx) > 0)"

record ('b, 'h, 'rh) RequestInterceptionHandler =
  handler_blockResponse :: "block_response option"
  handler_modifyRequestHeaders :: "'rh option \<Rightarrow> 'rh option"
  handler_modifiesResponse :: bool
  handler_modifyBody :: "'b \<Rightarrow> 'h \<Rightarrow> 'b \<times> 'h"

definition build ::
  "('b, 'h, 'rh) RequestInterceptionContext \<Rightarrow> ('b, 'h, 'rh) RequestInterceptionHandler" where
  "build ctx =
     \<lparr> handler_blockResponse = blockResponse ctx,
       handler_modifyRequestHeaders = modifyRequestHeaders ctx,
       handler_modifiesResponse = modifiesResponse ctx,
       handler_modifyBody = modifyBody ctx \<rparr>"

text \<open>
  \<open>buildInterceptor(requestHandlers).handleRequest(targetUrl)\<close>: a fresh context, every
  setup function awaited in order, then \<open>build()\<close>. A setup function reaches the emitter
  and the clock through the context's \<open>blockMalware\<close>, so the model hands it both.
\<close>

type_synonym ('b, 'h, 'rh, 's) setup_fn =
  "'s EventEmitter \<Rightarrow> int \<Rightarrow> ('b, 'h, 'rh) RequestInterceptionContext \<Rightarrow> 's \<Rightarrow>
   ('b, 'h, 'rh) RequestInterceptionContext \<times> 's"

definition handleRequest ::
  "('b, 'h, 'rh, 's) setup_fn list \<Rightarrow> 's EventEmitter \<Rightarrow> int \<Rightarrow> string \<Rightarrow> 's \<Rightarrow>
   ('b, 'h, 'rh) RequestInterceptionHandler \<times> 's" where
  "handleRequest requestHandlers eventEmitter now url s =
     (case fold (\<lambda>handler (ctx, s'). handler eventEmitter now ctx s') requestHandlers
             (createRequestContext url, s) of
        (ctx, s') \<Rightarrow> (build ctx, s'))"

record ('b, 'h, 'rh, 's) Interceptor =
  requestHandlers :: "('b, 'h, 'rh, 's) setup_fn list"
  eventEmitter :: "'s EventEmitter"

text \<open>\<open>buildInterceptor\<close> makes a new \<open>EventEmitter\<close>, one with no listener yet.\<close>

definition buildInterceptor ::
  "('b, 'h, 'rh, 's) setup_fn list \<Rightarrow> ('b, 'h, 'rh, 's) Interceptor" where
  "buildInterceptor handlers = \<lparr> requestHandlers = handlers, eventEmitter = [] \<rparr>"

definition interceptRequests ::
  "('b, 'h, 'rh, 's) setup_fn \<Rightarrow> ('b, 'h, 'rh, 's) Interceptor" where
  "interceptRequests requestInterceptionFunc = buildInterceptor [requestInterceptionFunc]"

definition interceptor_handleRequest ::
  "('b, 'h, 'rh, 's) Interceptor \<Rightarrow> int \<Rightarrow> string \<Rightarrow> 's \<Rightarrow>
   ('b, 'h, 'rh) RequestInterceptionHandler \<times> 's" where
  "interceptor_handleRequest i now url s =
     handleRequest (requestHandlers i) (eventEmitter i) now url s"

definition interceptor_on ::
  "('b, 'h, 'rh, 's) Interceptor \<Rightarrow> string \<Rightarrow> (js_object \<Rightarrow> 's \<Rightarrow> 's) \<Rightarrow>
   ('b, 'h, 'rh, 's) Interceptor" where
  "interceptor_on i event listener = i\<lparr>eventEmitter := on (eventEmitter i) event listener\<rparr>"

section \<open>Command-line arguments and settings (cliArguments.js, settings.js)\<close>

record cli_state =
  loggingLevel :: "string option"
  skipMinimumPackageAge_arg :: "bool option"
  minimumPackageAgeHours :: "string option"
  includePython :: bool

definition SAFE_CHAIN_ARG_PREFIX :: string where
  "SAFE_CHAIN_ARG_PREFIX = ''--safe-chain-''"

text \<open>The loop of \<open>getLastArgEqualsValue\<close> runs from the last argument to the first.\<close>

definition getLastArgEqualsValue :: "string list \<Rightarrow> string \<Rightarrow> string option" where
  "getLastArgEqualsValue args pre =
     (case find (\<lambda>arg. startsWith (toLowerCase arg) pre) (rev args) of
        None \<Rightarrow> None
      | Some arg \<Rightarrow> Some (drop (length pre) arg))"

definition hasFlagArg :: "string list \<Rightarrow> string \<Rightarrow> bool" where
  "hasFlagArg args flagName = (\<exists>arg \<in> set args. toLowerCase arg = toLowerCase flagName)"

definition setLoggingLevel :: "string list \<Rightarrow> cli_state \<Rightarrow> cli_state" where
  "setLoggingLevel args st =
     (case getLastArgEqualsValue args (SAFE_CHAIN_ARG_PREFIX @ ''logging='') of
        None \<Rightarrow> st
      | Some level \<Rightarrow> if level = [] then st else st\<lparr>loggingLevel := Some (toLowerCase level)\<rparr>)"

definition setSkipMinimumPackageAge :: "string list \<Rightarrow> cli_state \<Rightarrow> cli_state" where
  "setSkipMinimumPackageAge args st =
     (if hasFlagArg args (SAFE_CHAIN_ARG_PREFIX @ ''skip-minimum-package-age'')
      then st\<lparr>skipMinimumPackageAge_arg := Some True\<rparr> else st)"

definition setMinimumPackageAgeHours :: "string list \<Rightarrow> cli_state \<Rightarrow> cli_state" where
  "setMinimumPackageAgeHours args st =
     (case getLastArgEqualsValue args (SAFE_CHAIN_ARG_PREFIX @ ''minimum-package-age-hours='') of
        None \<Rightarrow> st
      | Some v \<Rightarrow> if v = [] then st else st\<lparr>minimumPackageAgeHours := Some v\<rparr>)"

definition setIncludePython :: "string list \<Rightarrow> cli_state \<Rightarrow> cli_state" where
  "setIncludePython args st = st\<lparr>includePython := hasFlagArg args ''--include-python''\<rparr>"

text \<open>
  \<open>initializeCliArguments\<close> resets three fields of the module state, splits the arguments
  and returns the remaining ones with the new state.
\<close>

definition initializeCliArguments :: "string list \<Rightarrow> cli_state \<Rightarrow> string list \<times> cli_state" where
  "initializeCliArguments args st0 =
     (let st = st0\<lparr>loggingLevel := Some ''silent'', skipMinimumPackageAge_arg := None,
                    minimumPackageAgeHours := None\<rparr>;
          safeChainArgs = filter (\<lambda>arg. startsWith (toLowerCase arg) SAFE_CHAIN_ARG_PREFIX) args;
          remainingArgs = filter (\<lambda>arg. \<not> startsWith (toLowerCase arg) SAFE_CHAIN_ARG_PREFIX) args
      in (remainingArgs,
          setIncludePython args
            (setMinimumPackageAgeHours safeChainArgs
              (setSkipMinimumPackageAge safeChainArgs (setLoggingLevel safeChainArgs st)))))"

definition cli_initial :: cli_state where
  "cli_initial = \<lparr> loggingLevel = Some ''silent'', skipMinimumPackageAge_arg = None,
                   minimumPackageAgeHours = None, includePython = False \<rparr>"

definition cliArguments_getSkipMinimumPackageAge :: "cli_state \<Rightarrow> bool option" where
  "cliArguments_getSkipMinimumPackageAge st = skipMinimumPackageAge_arg st"


text \<open>
  settings.js: \<open>skipMinimumPackageAge\<close> reads the command-line state.
\<close>

definition defaultSkipMinimumPackageAge :: bool where
  "defaultSkipMinimumPackageAge = False"

definition skipMinimumPackageAge :: "cli_state \<Rightarrow> bool" where
  "skipMinimumPackageAge st =
     (if cliArguments_getSkipMinimumPackageAge st = Some True then True
      else defaultSkipMinimumPackageAge)"



section \<open>HTTP headers (http-utils.js)\<close>

text \<open>
  \<open>NodeJS.Dict<string | string[]>\<close>: a header name (Node lower-cases the names it
  receives) maps to a string or to an array of strings, or is absent.
\<close>

datatype header_value = Single string | Multi "string list"

type_synonym headers = "string \<rightharpoonup> header_value"

fun join :: "string \<Rightarrow> string list \<Rightarrow> string" where
  "join sep [] = []"
| "join sep [x] = x"
| "join sep (x # y # ys) = x @ sep @ join sep (y # ys)"

definition getHeaderValueAsString :: "headers option \<Rightarrow> string \<Rightarrow> string option" where
  "getHeaderValueAsString headers headerName =
     (case headers of
        None \<Rightarrow> None
      | Some hs \<Rightarrow>
          (case hs headerName of
             None \<Rightarrow> None
           | Some (Multi xs) \<Rightarrow> Some (join '', '' xs)
           | Some (Single x) \<Rightarrow> Some x))"

section \<open>npm metadata rewriter (modifyNpmInfo.js)\<close>

text \<open>
  The rewriter's log lines and its flag \<open>hasSuppressedVersions\<close>, which only selects a
  message of the wrapper, are left out.

  An object read from JSON is the list of its entries in the order \<open>Object.entries\<close>
  gives them; its keys are distinct. \<open>delete obj[k]\<close> removes the entry of key \<open>k\<close>,
  \<open>obj[k] = v\<close> overwrites the entry in place or appends a new one, and
  \<open>Object.fromEntries\<close> assigns the entries one after the other.
\<close>

type_synonym 'a js_dict = "(string \<times> 'a) list"

definition delete_key :: "string \<Rightarrow> 'a js_dict \<Rightarrow> 'a js_dict" where
  "delete_key k obj = filter (\<lambda>(k', v). k' \<noteq> k) obj"

definition assign :: "'a js_dict \<Rightarrow> string \<Rightarrow> 'a \<Rightarrow> 'a js_dict" where
  "assign obj k v =
     (if k \<in> fst ` set obj then map (\<lambda>(k', v'). if k' = k then (k', v) else (k', v')) obj
      else obj @ [(k, v)])"

definition fromEntries :: "'a js_dict \<Rightarrow> 'a js_dict" where
  "fromEntries es = fold (\<lambda>(k, v) obj. assign obj k v) es []"

text \<open>
  The packument as the rewriter reads it. \<open>name\<close> is absent, a string, or some other JSON
  value (on which \<open>startsWith\<close> is not a function). \<open>time\<close>, \<open>dist-tags\<close> and \<open>versions\<close> are
  \<open>None\<close> when absent or falsy, and otherwise objects; the values of \<open>time\<close> and of
  \<open>dist-tags\<close> are strings, as the registry writes them (\<open>Record<string, string>\<close> in the
  source's own annotation). The values of \<open>versions\<close> and every other field of the
  document are carried along untouched (the type \<open>'v\<close> and the record's extension).
\<close>

datatype js_name = NameUndefined | NameString string | NameOther

record 'v packument =
  name :: js_name
  time :: "string js_dict option"
  dist_tags :: "string js_dict option"
  versions :: "'v js_dict option"

datatype js_error = TypeError | URIError | ZlibError | TimeoutExceeded | OtherError

definition allowedBasePackages :: "string list" where
  "allowedBasePackages =
     [''@brightspace-hmc'', ''@brightspace-ui'', ''@brightspace-ui-labs'',
      ''d2l-hypermedia-constants'', ''d2l-license-checker'', ''d2l-npm-login'',
      ''d2l-test-reporting'', ''eslint-config-brightspace'', ''frau-publisher'',
      ''messageformat-validator'']"

definition isPackageExemptFromAgeCheck :: "js_name \<Rightarrow> js_error + bool" where
  "isPackageExemptFromAgeCheck packageName =
     (case packageName of
        NameUndefined \<Rightarrow> Inr False
      | NameOther \<Rightarrow> Inl TypeError
      | NameString n \<Rightarrow>
          (let basePackageName =
                 (if startsWith n ''@'' then takeWhile (\<lambda>c. c \<noteq> CHR ''/'') n else n)
           in Inr (basePackageName \<in> set allowedBasePackages)))"

definition modifyNpmInfoRequestHeaders :: "headers \<Rightarrow> headers" where
  "modifyNpmInfoRequestHeaders headers =
     (case getHeaderValueAsString (Some headers) ''accept'' of
        None \<Rightarrow> headers
      | Some accept \<Rightarrow>
          if js_includes accept ''application/vnd.npm.install-v1+json''
          then headers(''accept'' \<mapsto> Single ''application/json'') else headers)"

definition isPackageInfoUrl :: "string \<Rightarrow> bool" where
  "isPackageInfoUrl url =
     (let urlWithoutParams =
            takeWhile (\<lambda>c. c \<noteq> CHR ''#'') (takeWhile (\<lambda>c. c \<noteq> CHR ''?'') url)
      in if endsWith urlWithoutParams ''.tgz'' then False
         else if js_includes urlWithoutParams ''/-/'' then False
         else True)"

text \<open>
  \<open>deleteVersionFromJson\<close>: the key leaves \<open>time\<close> and \<open>versions\<close>, and for every entry of
  \<open>dist-tags\<close> (the entries as they were when the loop began) whose value is the version,
  the tag is deleted.
\<close>

definition deleteVersionFromJson ::
  "('v, 'z) packument_scheme \<Rightarrow> string \<Rightarrow> ('v, 'z) packument_scheme" where
  "deleteVersionFromJson json version =
     json\<lparr> time := map_option (delete_key version) (time json),
           versions := map_option (delete_key version) (versions json),
           dist_tags :=
             map_option
               (\<lambda>tags. fold (\<lambda>(tag, distVersion) ts.
                               if version = distVersion then delete_key tag ts else ts)
                          tags tags)
               (dist_tags json) \<rparr>"

text \<open>
  \<open>getMostRecentTag\<close>: \<open>current\<close> and \<open>currentDate\<close> start undefined; an entry replaces
  them when \<open>currentDate\<close> is falsy (undefined or the empty string) or is smaller, as a
  string, than the entry's timestamp.
\<close>

fun getMostRecentTag_loop ::
  "string js_dict \<Rightarrow> string option \<Rightarrow> string option \<Rightarrow> string option" where
  "getMostRecentTag_loop [] current currentDate = current"
| "getMostRecentTag_loop ((version, timestamp) # rest) current currentDate =
     (if (case currentDate of None \<Rightarrow> True | Some d \<Rightarrow> d = [] \<or> d < timestamp)
      then getMostRecentTag_loop rest (Some version) (Some timestamp)
      else getMostRecentTag_loop rest current currentDate)"

definition getMostRecentTag :: "string js_dict \<Rightarrow> string option" where
  "getMostRecentTag tagList = getMostRecentTag_loop tagList None None"

definition truthy :: "string option \<Rightarrow> bool" where
  "truthy v = (case v of None \<Rightarrow> False | Some s \<Rightarrow> s \<noteq> [])"

definition calculateLatestTag :: "string js_dict \<Rightarrow> string option" where
  "calculateLatestTag tagList =
     (let entries = filter (\<lambda>(version, _). version \<noteq> ''created'' \<and> version \<noteq> ''modified'') tagList;
          latestFullRelease =
            getMostRecentTag (fromEntries (filter (\<lambda>(version, _). \<not> js_includes version ''-'') entries))
      in if truthy latestFullRelease then latestFullRelease
         else getMostRecentTag (fromEntries (filter (\<lambda>(version, _). js_includes version ''-'') entries)))"

text \<open>
  The cutoff of the source, in epoch milliseconds; \<open>now\<close> is \<open>new Date().getTime()\<close>
  and \<open>ageHours\<close> is what \<open>getMinimumPackageAgeHours()\<close> returns, a function the rewriter
  imports from the settings module and that is a parameter here.
  \<open>new Date(timestamp)\<close> is the argument \<open>Date\<close>: the epoch milliseconds of a string, or
  \<open>None\<close> for an invalid date, which compares false with everything.
\<close>

definition cutOff :: "int \<Rightarrow> int \<Rightarrow> int" where
  "cutOff ageHours now = now - ageHours * 3600 * 1000"

definition isAfter :: "int option \<Rightarrow> int \<Rightarrow> bool" where
  "isAfter timestampValue c = (case timestampValue of None \<Rightarrow> False | Some t \<Rightarrow> t > c)"

definition deleteCachingHeaders :: "headers \<Rightarrow> headers" where
  "deleteCachingHeaders headers =
     headers(''etag'' := None, ''last-modified'' := None, ''cache-control'' := None)"

definition versionEntries :: "string js_dict \<Rightarrow> string js_dict" where
  "versionEntries t = filter (\<lambda>(version, _). version \<noteq> ''created'' \<and> version \<noteq> ''modified'') t"

fun removeLoop ::
  "bool \<Rightarrow> (string \<Rightarrow> int option) \<Rightarrow> int \<Rightarrow> string js_dict \<Rightarrow>
   ('v, 'z) packument_scheme \<Rightarrow> headers option \<Rightarrow> ('v, 'z) packument_scheme \<times> headers option" where
  "removeLoop isExempt Date c [] json headers = (json, headers)"
| "removeLoop isExempt Date c ((version, timestamp) # rest) json headers =
     (if \<not> isExempt \<and> isAfter (Date timestamp) c
      then removeLoop isExempt Date c rest (deleteVersionFromJson json version)
             (map_option deleteCachingHeaders headers)
      else removeLoop isExempt Date c rest json headers)"

text \<open>
  The versions the loop calls \<open>deleteVersionFromJson\<close> for: the keys of \<open>time\<close>, other than
  \<open>created\<close> and \<open>modified\<close>, whose date is after the cutoff, when the package is not
  exempt.
\<close>

definition removedVersions ::
  "bool \<Rightarrow> (string \<Rightarrow> int option) \<Rightarrow> int \<Rightarrow> string js_dict \<Rightarrow> string list" where
  "removedVersions isExempt Date c t =
     map fst (filter (\<lambda>(version, timestamp). \<not> isExempt \<and> isAfter (Date timestamp) c)
                (versionEntries t))"

text \<open>
  The body of the \<open>try\<close> block once the three fields are known to be there: the loop over
  the entries of \<open>time\<close> as they were before it, then the new \<open>latest\<close> tag. Assigning
  \<open>undefined\<close> to \<open>latest\<close> leaves a property that \<open>JSON.stringify\<close> omits, so the
  document that is serialised has no \<open>latest\<close> then.
\<close>

definition hasLatest :: "string js_dict option \<Rightarrow> bool" where
  "hasLatest tags = (case tags of None \<Rightarrow> False | Some ts \<Rightarrow> truthy (map_of ts ''latest''))"

definition rewritePackument ::
  "bool \<Rightarrow> (string \<Rightarrow> int option) \<Rightarrow> int \<Rightarrow> int \<Rightarrow> ('v, 'z) packument_scheme \<Rightarrow>
   headers option \<Rightarrow> ('v, 'z) packument_scheme \<times> headers option" where
  "rewritePackument isExempt Date ageHours now bodyJson headers =
     (let hasLatestTag = hasLatest (dist_tags bodyJson);
          vs = versionEntries (case time bodyJson of None \<Rightarrow> [] | Some t \<Rightarrow> t)
      in case removeLoop isExempt Date (cutOff ageHours now) vs bodyJson headers of
           (json, headers') \<Rightarrow>
             (if hasLatestTag \<and> \<not> hasLatest (dist_tags json)
              then (case calculateLatestTag (case time json of None \<Rightarrow> [] | Some t \<Rightarrow> t) of
                      None \<Rightarrow> json
                    | Some v \<Rightarrow> json\<lparr>dist_tags := map_option (\<lambda>ts. assign ts ''latest'' v) (dist_tags json)\<rparr>)
              else json,
              headers'))"

text \<open>
  \<open>modifyNpmInfoResponse\<close>. \<open>JSON_parse\<close> is \<open>None\<close> where \<open>JSON.parse\<close> throws or gives
  a value with no properties to read (the \<open>catch\<close> returns the body then);
  \<open>JSON_stringify\<close> serialises the document. Both, and \<open>Date\<close>, are the runtime's;
  \<open>ageHours\<close> is the threshold \<open>getMinimumPackageAgeHours()\<close> returns.
\<close>

definition modifyNpmInfoResponse ::
  "(string \<Rightarrow> ('v, 'z) packument_scheme option) \<Rightarrow> (('v, 'z) packument_scheme \<Rightarrow> string) \<Rightarrow>
   (string \<Rightarrow> int option) \<Rightarrow> int \<Rightarrow> int \<Rightarrow> string \<Rightarrow> headers option \<Rightarrow>
   string \<times> headers option" where
  "modifyNpmInfoResponse JSON_parse JSON_stringify Date ageHours now body headers =
     (case getHeaderValueAsString headers ''content-type'' of
        None \<Rightarrow> (body, headers)
      | Some contentType \<Rightarrow>
          if \<not> js_includes (toLowerCase contentType) ''application/json'' then (body, headers)
          else if length body = 0 then (body, headers)
          else
            (case JSON_parse body of
               None \<Rightarrow> (body, headers)
             | Some bodyJson \<Rightarrow>
                 if time bodyJson = None \<or> dist_tags bodyJson = None \<or> versions bodyJson = None
                 then (body, headers)
                 else
                   (case isPackageExemptFromAgeCheck (name bodyJson) of
                      Inl err \<Rightarrow> (body, headers)
                    | Inr isExempt \<Rightarrow>
                        (case rewritePackument isExempt Date ageHours now bodyJson headers of
                           (json, headers') \<Rightarrow> (JSON_stringify json, headers')))))"

text \<open>
  The document \<open>modifyNpmInfoResponse\<close> goes on to rewrite, with the result of the
  exemption test: the same tests in the same order, \<open>None\<close> wherever the function returns
  the body as it is.
\<close>

definition packumentOf ::
  "(string \<Rightarrow> ('v, 'z) packument_scheme option) \<Rightarrow> string \<Rightarrow> headers option \<Rightarrow>
   (('v, 'z) packument_scheme \<times> bool) option" where
  "packumentOf JSON_parse body headers =
     (case getHeaderValueAsString headers ''content-type'' of
        None \<Rightarrow> None
      | Some contentType \<Rightarrow>
          if \<not> js_includes (toLowerCase contentType) ''application/json'' then None
          else if length body = 0 then None
          else
            (case JSON_parse body of
               None \<Rightarrow> None
             | Some bodyJson \<Rightarrow>
                 if time bodyJson = None \<or> dist_tags bodyJson = None \<or> versions bodyJson = None
                 then None
                 else
                   (case isPackageExemptFromAgeCheck (name bodyJson) of
                      Inl err \<Rightarrow> None
                    | Inr isExempt \<Rightarrow> Some (bodyJson, isExempt))))"

section \<open>npm interceptor (npmInterceptor.js)\<close>

text \<open>
  What the interceptor takes from other modules and from the runtime:
  \<open>parseNpmPackageUrl\<close> (parseNpmPackageUrl.js) and the malware oracle
  \<open>isMalwarePackage\<close> (scanning/audit), the command-line state, the age threshold
  \<open>getMinimumPackageAgeHours()\<close> of the settings module, and the runtime's JSON and date
  functions for the rewriter.
\<close>

record ('v, 'z) npm_env =
  parseNpmPackageUrl :: "string \<Rightarrow> string \<Rightarrow> string option \<times> string option"
  isMalwarePackage :: "string option \<Rightarrow> string option \<Rightarrow> bool"
  cli :: cli_state
  getMinimumPackageAgeHours :: int
  JSON_parse :: "string \<Rightarrow> ('v, 'z) packument_scheme option"
  JSON_stringify :: "('v, 'z) packument_scheme \<Rightarrow> string"
  Date_parse :: "string \<Rightarrow> int option"

definition knownJsRegistries :: "string list" where
  "knownJsRegistries = [''registry.npmjs.org'', ''registry.yarnpkg.com'']"

definition npmSetup ::
  "('v, 'z) npm_env \<Rightarrow> string \<Rightarrow> (string, headers option, headers, 's) setup_fn" where
  "npmSetup env registry emitter now reqContext s =
     (case parseNpmPackageUrl env (targetUrl reqContext) registry of
        (packageName, version) \<Rightarrow>
          (case (if isMalwarePackage env packageName version
                 then blockMalwareSetup emitter now packageName version reqContext s
                 else (reqContext, s)) of
             (ctx, s') \<Rightarrow>
               (if \<not> skipMinimumPackageAge (cli env) \<and> isPackageInfoUrl (targetUrl ctx)
                then ctx_modifyBody
                       (modifyNpmInfoResponse (JSON_parse env) (JSON_stringify env)
                          (Date_parse env) (getMinimumPackageAgeHours env) now)
                       (ctx_modifyRequestHeaders modifyNpmInfoRequestHeaders ctx)
                else ctx,
                s')))"

definition buildNpmInterceptor ::
  "('v, 'z) npm_env \<Rightarrow> string \<Rightarrow> (string, headers option, headers, 's) Interceptor" where
  "buildNpmInterceptor env registry = interceptRequests (npmSetup env registry)"

definition npmInterceptorForUrl ::
  "('v, 'z) npm_env \<Rightarrow> string \<Rightarrow> (string, headers option, headers, 's) Interceptor option" where
  "npmInterceptorForUrl env url =
     (case find (\<lambda>reg. js_includes url reg) knownJsRegistries of
        None \<Rightarrow> None
      | Some registry \<Rightarrow> Some (buildNpmInterceptor env registry))"

section \<open>Proxy controller (registryProxy.js)\<close>

record blocked_request =
  br_packageName :: js_value
  br_version :: js_value
  br_url :: js_value

record proxy_state =
  port :: "nat option"
  blockedRequests :: "blocked_request list"

definition proxy_initial :: proxy_state where
  "proxy_initial = \<lparr> port = None, blockedRequests = [] \<rparr>"

definition onMalwareBlocked :: "js_value \<Rightarrow> js_value \<Rightarrow> js_value \<Rightarrow> proxy_state \<Rightarrow> proxy_state" where
  "onMalwareBlocked pn v u st =
     st\<lparr>blockedRequests := blockedRequests st @ [\<lparr> br_packageName = pn, br_version = v, br_url = u \<rparr>]\<rparr>"

text \<open>
  The listener \<open>handleConnect\<close> subscribes: it reads \<open>event.packageName\<close>,
  \<open>event.version\<close> and \<open>event.url\<close>.
\<close>

definition malwareBlockedListener :: "js_object \<Rightarrow> proxy_state \<Rightarrow> proxy_state" where
  "malwareBlockedListener event st =
     onMalwareBlocked (getProp event ''packageName'') (getProp event ''version'')
       (getProp event ''url'') st"

text \<open>
  \<open>handleConnect\<close>: the interceptor the ecosystem router gives for the URL, if any, gets
  the listener and goes to the MITM server; otherwise the request is tunnelled.
\<close>

definition handleConnect ::
  "(string \<Rightarrow> ('b, 'h, 'rh, proxy_state) Interceptor option) \<Rightarrow> string \<Rightarrow>
   ('b, 'h, 'rh, proxy_state) Interceptor option" where
  "handleConnect createInterceptorForUrl reqUrl =
     (case createInterceptorForUrl reqUrl of
        None \<Rightarrow> None
      | Some interceptor \<Rightarrow> Some (interceptor_on interceptor ''malwareBlocked'' malwareBlockedListener))"

definition verifyNoMaliciousPackages :: "proxy_state \<Rightarrow> bool" where
  "verifyNoMaliciousPackages st = (length (blockedRequests st) = 0)"

section \<open>MITM server (mitmRequestHandler.js)\<close>

text \<open>
  What the client is sent for one request: \<open>handleRequest\<close> of \<open>createHttpsServer\<close> asks
  the interceptor for a handler and writes the block response if there is one;
  otherwise the response callback of \<open>createProxyRequest\<close> answers from the upstream
  response. \<open>gunzipSync\<close> throws on malformed input.
\<close>

record upstream_response =
  up_statusCode :: nat
  up_headers :: headers
  up_body :: string

record client_response =
  res_statusCode :: nat
  res_statusMessage :: "string option"
  res_headers :: headers
  res_body :: string

definition isGzip :: "headers \<Rightarrow> bool" where
  "isGzip hs = (hs ''content-encoding'' = Some (Single ''gzip''))"

definition proxyResponse ::
  "(string \<Rightarrow> string option) \<Rightarrow> (string \<Rightarrow> string) \<Rightarrow>
   (string, headers option, 'rh) RequestInterceptionHandler \<Rightarrow> upstream_response \<Rightarrow>
   js_error + client_response" where
  "proxyResponse gunzipSync gzipSync requestHandler proxyRes =
     (if up_statusCode proxyRes = 0
      then Inr \<lparr> res_statusCode = 500, res_statusMessage = None, res_headers = Map.empty,
                 res_body = ''Internal Server Error'' \<rparr>
      else if handler_modifiesResponse requestHandler
      then
        (case (if isGzip (up_headers proxyRes) then gunzipSync (up_body proxyRes)
               else Some (up_body proxyRes)) of
           None \<Rightarrow> Inl ZlibError
         | Some buffer \<Rightarrow>
             (case handler_modifyBody requestHandler buffer (Some (up_headers proxyRes)) of
                (buffer', headers') \<Rightarrow>
                  (let hs = (case headers' of None \<Rightarrow> up_headers proxyRes | Some h \<Rightarrow> h)
                   in Inr \<lparr> res_statusCode = up_statusCode proxyRes, res_statusMessage = None,
                            res_headers = hs,
                            res_body = (if isGzip hs then gzipSync buffer' else buffer') \<rparr>)))
      else Inr \<lparr> res_statusCode = up_statusCode proxyRes, res_statusMessage = None,
                 res_headers = up_headers proxyRes, res_body = up_body proxyRes \<rparr>)"

definition mitmHandleRequest ::
  "(string \<Rightarrow> string option) \<Rightarrow> (string \<Rightarrow> string) \<Rightarrow>
   (string, headers option, 'rh, 's) Interceptor \<Rightarrow> int \<Rightarrow> string \<Rightarrow> upstream_response \<Rightarrow> 's \<Rightarrow>
   (js_error + client_response) \<times> 's" where
  "mitmHandleRequest gunzipSync gzipSync interceptor now url proxyRes s =
     (case interceptor_handleRequest interceptor now url s of
        (requestInterceptor, s') \<Rightarrow>
          (case handler_blockResponse requestInterceptor of
             Some blocked \<Rightarrow>
               (Inr \<lparr> res_statusCode = statusCode blocked,
                      res_statusMessage = Some (message blocked),
                      res_headers = Map.empty, res_body = message blocked \<rparr>, s')
           | None \<Rightarrow> (proxyResponse gunzipSync gzipSync requestInterceptor proxyRes, s')))"

section \<open>PyPI URL parser (pipInterceptor.js)\<close>

text \<open>
  \<open>indexOf\<close> and \<open>lastIndexOf\<close> of a character: \<open>None\<close> is the source's \<open>-1\<close>.
\<close>

definition indexOf :: "string \<Rightarrow> char \<Rightarrow> nat option" where
  "indexOf s c = (if c \<in> set s then Some (length (takeWhile (\<lambda>x. x \<noteq> c) s)) else None)"

definition lastIndexOf :: "string \<Rightarrow> char \<Rightarrow> nat option" where
  "lastIndexOf s c =
     (if c \<in> set s then Some (length s - 1 - length (takeWhile (\<lambda>x. x \<noteq> c) (rev s))) else None)"

fun splitOn :: "char \<Rightarrow> string \<Rightarrow> string list" where
  "splitOn c [] = [[]]"
| "splitOn c (x # xs) =
     (if x = c then [] # splitOn c xs
      else (case splitOn c xs of [] \<Rightarrow> [[x]] | y # ys \<Rightarrow> (x # y) # ys))"

text \<open>
  The regular expression \<open>/\.(tar\.gz|zip|tar\.bz2|tar\.xz)$/i\<close>: the extension the file
  name ends in, whatever its case, if it is one of the four.
\<close>

definition sdistExtMatch :: "string \<Rightarrow> string option" where
  "sdistExtMatch filename =
     find (\<lambda>ext. endsWith (toLowerCase filename) ext)
       [''.tar.gz'', ''.zip'', ''.tar.bz2'', ''.tar.xz'']"

text \<open>
  The source from the wheel test on. A wheel name with no \<open>-\<close> after its first character
  falls through to the sdist test.
\<close>

definition parsePipFilename :: "string \<Rightarrow> string option \<times> string option" where
  "parsePipFilename filename =
     (let wheel =
            (if endsWith filename ''.whl''
             then (let base = take (length filename - 4) filename
                   in case indexOf base CHR ''-'' of
                        None \<Rightarrow> None
                      | Some firstDash \<Rightarrow>
                          if firstDash > 0
                          then (let dist = take firstDash base;
                                    rest = drop (firstDash + 1) base;
                                    rawVersion = (case indexOf rest CHR ''-'' of
                                                    Some secondDash \<Rightarrow> take secondDash rest
                                                  | None \<Rightarrow> rest)
                                in if rawVersion = ''latest'' \<or> dist = [] \<or> rawVersion = []
                                   then Some (None, None)
                                   else Some (Some dist, Some rawVersion))
                          else None)
             else None)
      in case wheel of
           Some r \<Rightarrow> r
         | None \<Rightarrow>
             (case sdistExtMatch filename of
                None \<Rightarrow> (None, None)
              | Some ext \<Rightarrow>
                  (let base = take (length filename - length ext) filename
                   in case lastIndexOf base CHR ''-'' of
                        None \<Rightarrow> (None, None)
                      | Some lastDash \<Rightarrow>
                          if lastDash > 0 \<and> lastDash < length base - 1
                          then (let pkg = take lastDash base;
                                    ver = drop (lastDash + 1) base
                                in if ver = ''latest'' \<or> pkg = [] \<or> ver = []
                                   then (None, None)
                                   else (Some pkg, Some ver))
                          else (None, None))))"

text \<open>
  \<open>parsePipPackageFromUrl\<close>. \<open>URL_pathname\<close> is \<open>new URL(url).pathname\<close>, \<open>None\<close> where the
  constructor throws; \<open>decodeURIComponent\<close> is \<open>None\<close> where it throws a \<open>URIError\<close>,
  which the function does not catch.
\<close>

definition lastPathSegment :: "string \<Rightarrow> string option" where
  "lastPathSegment pathname =
     (case filter (\<lambda>seg. seg \<noteq> []) (splitOn CHR ''/'' pathname) of
        [] \<Rightarrow> None
      | seg # segs \<Rightarrow> Some (last (seg # segs)))"

definition parsePipPackageFromUrl ::
  "(string \<Rightarrow> string option) \<Rightarrow> (string \<Rightarrow> string option) \<Rightarrow> string \<Rightarrow> string \<Rightarrow>
   js_error + (string option \<times> string option)" where
  "parsePipPackageFromUrl URL_pathname decodeURIComponent u registry =
     (if registry = [] then Inr (None, None)
      else case URL_pathname u of
             None \<Rightarrow> Inr (None, None)
           | Some pathname \<Rightarrow>
               (case lastPathSegment pathname of
                  None \<Rightarrow> Inr (None, None)
                | Some lastSegment \<Rightarrow>
                    (case decodeURIComponent lastSegment of
                       None \<Rightarrow> Inl URIError
                     | Some filename \<Rightarrow> Inr (parsePipFilename filename))))"

section \<open>Wrapper orchestrator (main.js, scanning/index.js)\<close>

record 'c AuditResult =
  allowedChanges :: "'c list"
  disallowedChanges :: "'c list"
  isAllowed :: bool

text \<open>
  \<open>scanCommand\<close>. The two variables \<open>timedOut\<close> and \<open>audit\<close> are read when
  \<open>await Promise.race\<close> resumes; what they hold then, or that the race rejected (the
  resolver or the audit threw), is the environment's \<open>race\<close>.
\<close>

record 'c race_state =
  timedOut :: bool
  audit :: "'c AuditResult option"

definition shouldScanCommand :: "(string list \<Rightarrow> bool) \<Rightarrow> string list \<Rightarrow> bool" where
  "shouldScanCommand isSupportedCommand args =
     (if length args = 0 then False else isSupportedCommand args)"

definition scanCommand ::
  "(string list \<Rightarrow> bool) \<Rightarrow> (string list \<Rightarrow> js_error + 'c race_state) \<Rightarrow> string list \<Rightarrow>
   js_error + int" where
  "scanCommand isSupportedCommand race args =
     (if \<not> shouldScanCommand isSupportedCommand args then Inr 0
      else case race args of
             Inl err \<Rightarrow> Inl err
           | Inr r \<Rightarrow>
               if timedOut r then Inl TimeoutExceeded
               else (case audit r of
                       None \<Rightarrow> Inr 0
                     | Some a \<Rightarrow> if isAllowed a then Inr 0 else Inr 1))"

text \<open>
  \<open>main\<close>. The environment: whether the proxy starts, the package manager's
  \<open>isSupportedCommand\<close> and \<open>runCommand\<close> (the child's exit status, or an exception, and the
  proxy state as the child's requests leave it), and the race of \<open>scanCommand\<close>. The
  result is the promise's outcome with the trace of what \<open>main\<close> did to the proxy and
  the child; \<open>finally\<close> stops the proxy on every path through the \<open>try\<close>. What \<open>main\<close>
  writes to the terminal is left out.
\<close>

datatype effect = StartServer | RunCommand "string list" | StopServer

record 'c main_env =
  startServer_ok :: bool
  isSupportedCommand :: "string list \<Rightarrow> bool"
  scanRace :: "string list \<Rightarrow> js_error + 'c race_state"
  runCommand :: "string list \<Rightarrow> proxy_state \<Rightarrow> (js_error + int) \<times> proxy_state"

definition main ::
  "'c main_env \<Rightarrow> string list \<Rightarrow> cli_state \<Rightarrow> proxy_state \<Rightarrow> (js_error + int) \<times> effect list" where
  "main env args0 cli0 st =
     (if \<not> startServer_ok env then (Inl OtherError, [StartServer])
      else
        (case initializeCliArguments args0 cli0 of
           (args, cli') \<Rightarrow>
             (case (if shouldScanCommand (isSupportedCommand env) args
                    then scanCommand (isSupportedCommand env) (scanRace env) args
                    else Inr 0) of
                Inl err \<Rightarrow> (Inr 1, [StartServer, StopServer])
              | Inr commandScanResult \<Rightarrow>
                  if commandScanResult \<noteq> 0
                  then (Inr commandScanResult, [StartServer, StopServer])
                  else
                    (case runCommand env args st of
                       (Inl err, st') \<Rightarrow> (Inr 1, [StartServer, RunCommand args, StopServer])
                     | (Inr status, st') \<Rightarrow>
                         if \<not> verifyNoMaliciousPackages st'
                         then (Inr 1, [StartServer, RunCommand args, StopServer])
                         else (Inr status, [StartServer, RunCommand args, StopServer])))))"

section \<open>Concrete inputs\<close>

text \<open>
  A wrapper environment for the examples: the pre-scan times out or not, allows the
  changes or not, the child's requests leave the given blocked entries, and the child
  exits with the given status.
\<close>

definition example_main_env :: "bool \<Rightarrow> bool \<Rightarrow> blocked_request list \<Rightarrow> int \<Rightarrow> unit main_env" where
  "example_main_env timeout allowed blocked status =
     \<lparr> startServer_ok = True,
       isSupportedCommand = (\<lambda>args. True),
       scanRace = (\<lambda>args. Inr \<lparr> timedOut = timeout,
                      audit = (if timeout then None
                               else Some \<lparr> allowedChanges = [], disallowedChanges = (if allowed then [] else [()]),
                                           isAllowed = allowed \<rparr>) \<rparr>),
       runCommand = (\<lambda>args st. (Inr status, st\<lparr>blockedRequests := blockedRequests st @ blocked\<rparr>)) \<rparr>"

text \<open>
  An npm environment for the examples: the tarball URL of scenario S2 parses to
  \<open>malicious-package\<close> at \<open>1.0.0\<close>, which the oracle reports as malware.
\<close>

definition example_url :: string where
  "example_url = ''https://registry.npmjs.org/malicious-package/-/malicious-package-1.0.0.tgz''"

definition example_env :: "(unit, unit) npm_env" where
  "example_env =
     \<lparr> parseNpmPackageUrl = (\<lambda>u registry. if u = example_url
          then (Some ''malicious-package'', Some ''1.0.0'') else (None, None)),
       isMalwarePackage = (\<lambda>n v. n = Some ''malicious-package'' \<and> v = Some ''1.0.0''),
       cli = cli_initial,
       getMinimumPackageAgeHours = 24,
       JSON_parse = (\<lambda>b. None),
       JSON_stringify = (\<lambda>j. []),
       Date_parse = (\<lambda>t. None) \<rparr>"

text \<open>
  \<open>new URL(url).pathname\<close> on four URLs of the parser's test file; the last path segment
  of each has no percent escape, so \<open>decodeURIComponent\<close> returns it as it is.
\<close>

definition example_URL_pathname :: "string \<Rightarrow> string option" where
  "example_URL_pathname u =
     (if u = ''https://files.pythonhosted.org/packages/xx/yy/foo_bar-2.0.0-py3-none-any.whl''
      then Some ''/packages/xx/yy/foo_bar-2.0.0-py3-none-any.whl''
      else if u = ''https://pypi.org/packages/source/f/foo-bar/foo-bar-0.9.0.tar.gz''
      then Some ''/packages/source/f/foo-bar/foo-bar-0.9.0.tar.gz''
      else if u = ''https://files.pythonhosted.org/packages/xx/yy/foobar-latest.tar.gz''
      then Some ''/packages/xx/yy/foobar-latest.tar.gz''
      else if u = ''https://pypi.org/simple/''
      then Some ''/simple/''
      else None)"

text \<open>
  The packument of scenario S1 at the clock reading 1700000000000
  (2023-11-14T22:13:20.000Z): \<open>4.17.20\<close> is old, \<open>4.17.21\<close> is two hours old and is
  \<open>latest\<close>. \<open>lodash_rewritten\<close> is the document without \<open>4.17.21\<close>. The runtime's
  functions are given on these: the JSON texts of the two documents, and the epoch
  milliseconds of the four timestamps.
\<close>

definition lodash_body :: string where
  \<open>lodash_body = ''{"name":"lodash","dist-tags":{"latest":"4.17.21"},"versions":{"4.17.20":{},"4.17.21":{}},"time":{"created":"2012-04-23T16:37:11.912Z","modified":"2023-11-14T20:13:20.000Z","4.17.20":"2020-08-13T16:53:54.152Z","4.17.21":"2023-11-14T20:13:20.000Z"}}''\<close>

definition lodash_json :: "unit packument" where
  "lodash_json =
     \<lparr> name = NameString ''lodash'',
       time = Some [(''created'', ''2012-04-23T16:37:11.912Z''),
                    (''modified'', ''2023-11-14T20:13:20.000Z''),
                    (''4.17.20'', ''2020-08-13T16:53:54.152Z''),
                    (''4.17.21'', ''2023-11-14T20:13:20.000Z'')],
       dist_tags = Some [(''latest'', ''4.17.21'')],
       versions = Some [(''4.17.20'', ()), (''4.17.21'', ())] \<rparr>"

definition lodash_rewritten_body :: string where
  \<open>lodash_rewritten_body = ''{"name":"lodash","dist-tags":{"latest":"4.17.20"},"versions":{"4.17.20":{}},"time":{"created":"2012-04-23T16:37:11.912Z","modified":"2023-11-14T20:13:20.000Z","4.17.20":"2020-08-13T16:53:54.152Z"}}''\<close>

definition lodash_rewritten :: "unit packument" where
  "lodash_rewritten =
     \<lparr> name = NameString ''lodash'',
       time = Some [(''created'', ''2012-04-23T16:37:11.912Z''),
                    (''modified'', ''2023-11-14T20:13:20.000Z''),
                    (''4.17.20'', ''2020-08-13T16:53:54.152Z'')],
       dist_tags = Some [(''latest'', ''4.17.20'')],
       versions = Some [(''4.17.20'', ())] \<rparr>"

text \<open>
  A packument of an exempt scope, \<open>@brightspace-ui\<close>, whose only version is two hours
  old.
\<close>

definition brightspace_body :: string where
  \<open>brightspace_body = ''{"name":"@brightspace-ui/core","dist-tags":{"latest":"3.0.0"},"versions":{"3.0.0":{}},"time":{"created":"2012-04-23T16:37:11.912Z","modified":"2023-11-14T20:13:20.000Z","3.0.0":"2023-11-14T20:13:20.000Z"}}''\<close>

definition brightspace_json :: "unit packument" where
  "brightspace_json =
     \<lparr> name = NameString ''@brightspace-ui/core'',
       time = Some [(''created'', ''2012-04-23T16:37:11.912Z''),
                    (''modified'', ''2023-11-14T20:13:20.000Z''),
                    (''3.0.0'', ''2023-11-14T20:13:20.000Z'')],
       dist_tags = Some [(''latest'', ''3.0.0'')],
       versions = Some [(''3.0.0'', ())] \<rparr>"

text \<open>
  A packument whose \<open>latest\<close>, \<open>1.0.0\<close>, is two hours old and whose other releases are
  prereleases; \<open>versions\<close> lists \<open>0.9.0\<close>, which has no entry in \<open>time\<close>. And one whose
  only version is two hours old.
\<close>

definition beta_body :: string where
  \<open>beta_body = ''{"name":"example-pkg","dist-tags":{"latest":"1.0.0","beta":"1.0.0-beta.2"},"versions":{"0.9.0":{},"1.0.0-beta.1":{},"1.0.0-beta.2":{},"1.0.0":{}},"time":{"created":"2012-04-23T16:37:11.912Z","modified":"2023-11-14T20:13:20.000Z","1.0.0-beta.1":"2012-04-23T16:37:11.912Z","1.0.0-beta.2":"2020-08-13T16:53:54.152Z","1.0.0":"2023-11-14T20:13:20.000Z"}}''\<close>

definition beta_json :: "unit packument" where
  "beta_json =
     \<lparr> name = NameString ''example-pkg'',
       time = Some [(''created'', ''2012-04-23T16:37:11.912Z''),
                    (''modified'', ''2023-11-14T20:13:20.000Z''),
                    (''1.0.0-beta.1'', ''2012-04-23T16:37:11.912Z''),
                    (''1.0.0-beta.2'', ''2020-08-13T16:53:54.152Z''),
                    (''1.0.0'', ''2023-11-14T20:13:20.000Z'')],
       dist_tags = Some [(''latest'', ''1.0.0''), (''beta'', ''1.0.0-beta.2'')],
       versions = Some [(''0.9.0'', ()), (''1.0.0-beta.1'', ()), (''1.0.0-beta.2'', ()),
                        (''1.0.0'', ())] \<rparr>"

definition young_body :: string where
  \<open>young_body = ''{"name":"young-pkg","dist-tags":{"latest":"1.0.0"},"versions":{"1.0.0":{}},"time":{"created":"2023-11-14T20:13:20.000Z","modified":"2023-11-14T20:13:20.000Z","1.0.0":"2023-11-14T20:13:20.000Z"}}''\<close>

definition young_json :: "unit packument" where
  "young_json =
     \<lparr> name = NameString ''young-pkg'',
       time = Some [(''created'', ''2023-11-14T20:13:20.000Z''),
                    (''modified'', ''2023-11-14T20:13:20.000Z''),
                    (''1.0.0'', ''2023-11-14T20:13:20.000Z'')],
       dist_tags = Some [(''latest'', ''1.0.0'')],
       versions = Some [(''1.0.0'', ())] \<rparr>"

text \<open>
  The documents the rewriter makes of the two at the clock reading 1700000000000 with a
  threshold of 24 hours, and their JSON texts. The first has \<open>latest\<close> again, added
  after the tag \<open>beta\<close>; the second has no version and no tag left.
\<close>

definition beta_rewritten_body :: string where
  \<open>beta_rewritten_body = ''{"name":"example-pkg","dist-tags":{"beta":"1.0.0-beta.2","latest":"1.0.0-beta.2"},"versions":{"0.9.0":{},"1.0.0-beta.1":{},"1.0.0-beta.2":{}},"time":{"created":"2012-04-23T16:37:11.912Z","modified":"2023-11-14T20:13:20.000Z","1.0.0-beta.1":"2012-04-23T16:37:11.912Z","1.0.0-beta.2":"2020-08-13T16:53:54.152Z"}}''\<close>

definition beta_rewritten :: "unit packument" where
  "beta_rewritten =
     \<lparr> name = NameString ''example-pkg'',
       time = Some [(''created'', ''2012-04-23T16:37:11.912Z''),
                    (''modified'', ''2023-11-14T20:13:20.000Z''),
                    (''1.0.0-beta.1'', ''2012-04-23T16:37:11.912Z''),
                    (''1.0.0-beta.2'', ''2020-08-13T16:53:54.152Z'')],
       dist_tags = Some [(''beta'', ''1.0.0-beta.2''), (''latest'', ''1.0.0-beta.2'')],
       versions = Some [(''0.9.0'', ()), (''1.0.0-beta.1'', ()), (''1.0.0-beta.2'', ())] \<rparr>"

definition young_rewritten_body :: string where
  \<open>young_rewritten_body = ''{"name":"young-pkg","dist-tags":{},"versions":{},"time":{"created":"2023-11-14T20:13:20.000Z","modified":"2023-11-14T20:13:20.000Z"}}''\<close>

definition young_rewritten :: "unit packument" where
  "young_rewritten =
     \<lparr> name = NameString ''young-pkg'',
       time = Some [(''created'', ''2023-11-14T20:13:20.000Z''),
                    (''modified'', ''2023-11-14T20:13:20.000Z'')],
       dist_tags = Some [],
       versions = Some [] \<rparr>"

text \<open>
  A packument whose timestamps are not of one format: \<open>1.0.0\<close> is dated
  \<open>2020-01-01T00:00:00Z\<close> and \<open>1.1.0\<close>, half a second later,
  \<open>2020-01-01T00:00:00.500Z\<close>; \<open>latest\<close> is \<open>2.0.0\<close>, two hours old. Both are date-time
  strings \<open>Date\<close> reads (epoch milliseconds 1577836800000 and 1577836800500), and as
  strings the later one is the smaller, \<open>.\<close> coming before \<open>Z\<close>. \<open>mixed_rewritten\<close> is
  the document without \<open>2.0.0\<close> and with \<open>1.0.0\<close> as \<open>latest\<close>.
\<close>

definition mixed_body :: string where
  \<open>mixed_body = ''{"name":"mixed-pkg","dist-tags":{"latest":"2.0.0"},"versions":{"1.0.0":{},"1.1.0":{},"2.0.0":{}},"time":{"created":"2012-04-23T16:37:11.912Z","modified":"2023-11-14T20:13:20.000Z","1.0.0":"2020-01-01T00:00:00Z","1.1.0":"2020-01-01T00:00:00.500Z","2.0.0":"2023-11-14T20:13:20.000Z"}}''\<close>

definition mixed_json :: "unit packument" where
  "mixed_json =
     \<lparr> name = NameString ''mixed-pkg'',
       time = Some [(''created'', ''2012-04-23T16:37:11.912Z''),
                    (''modified'', ''2023-11-14T20:13:20.000Z''),
                    (''1.0.0'', ''2020-01-01T00:00:00Z''),
                    (''1.1.0'', ''2020-01-01T00:00:00.500Z''),
                    (''2.0.0'', ''2023-11-14T20:13:20.000Z'')],
       dist_tags = Some [(''latest'', ''2.0.0'')],
       versions = Some [(''1.0.0'', ()), (''1.1.0'', ()), (''2.0.0'', ())] \<rparr>"

definition mixed_rewritten_body :: string where
  \<open>mixed_rewritten_body = ''{"name":"mixed-pkg","dist-tags":{"latest":"1.0.0"},"versions":{"1.0.0":{},"1.1.0":{}},"time":{"created":"2012-04-23T16:37:11.912Z","modified":"2023-11-14T20:13:20.000Z","1.0.0":"2020-01-01T00:00:00Z","1.1.0":"2020-01-01T00:00:00.500Z"}}''\<close>

definition mixed_rewritten :: "unit packument" where
  "mixed_rewritten =
     \<lparr> name = NameString ''mixed-pkg'',
       time = Some [(''created'', ''2012-04-23T16:37:11.912Z''),
                    (''modified'', ''2023-11-14T20:13:20.000Z''),
                    (''1.0.0'', ''2020-01-01T00:00:00Z''),
                    (''1.1.0'', ''2020-01-01T00:00:00.500Z'')],
       dist_tags = Some [(''latest'', ''1.0.0'')],
       versions = Some [(''1.0.0'', ()), (''1.1.0'', ())] \<rparr>"

definition example_JSON_parse :: "string \<Rightarrow> unit packument option" where
  "example_JSON_parse body =
     (if body = lodash_body then Some lodash_json
      else if body = lodash_rewritten_body then Some lodash_rewritten
      else if body = brightspace_body then Some brightspace_json
      else if body = beta_body then Some beta_json
      else if body = young_body then Some young_json
      else if body = mixed_body then Some mixed_json
      else None)"

definition example_JSON_stringify :: "unit packument \<Rightarrow> string" where
  "example_JSON_stringify json =
     (if json = lodash_json then lodash_body
      else if json = lodash_rewritten then lodash_rewritten_body
      else if json = brightspace_json then brightspace_body
      else if json = beta_rewritten then beta_rewritten_body
      else if json = young_rewritten then young_rewritten_body
      else if json = mixed_rewritten then mixed_rewritten_body
      else ''null'')"

definition example_Date :: "string \<Rightarrow> int option" where
  "example_Date timestamp =
     (if timestamp = ''2012-04-23T16:37:11.912Z'' then Some 1335199031912
      else if timestamp = ''2020-08-13T16:53:54.152Z'' then Some 1597337634152
      else if timestamp = ''2023-11-14T20:13:20.000Z'' then Some 1699992800000
      else if timestamp = ''2023-11-14T22:13:20.000Z'' then Some 1700000000000
      else if timestamp = ''2020-01-01T00:00:00Z'' then Some 1577836800000
      else if timestamp = ''2020-01-01T00:00:00.500Z'' then Some 1577836800500
      else None)"

definition lodash_env :: "(unit, unit) npm_env" where
  "lodash_env =
     \<lparr> parseNpmPackageUrl = (\<lambda>u registry. (None, None)),
       isMalwarePackage = (\<lambda>n v. False),
       cli = cli_initial,
       getMinimumPackageAgeHours = 24,
       JSON_parse = example_JSON_parse,
       JSON_stringify = example_JSON_stringify,
       Date_parse = example_Date \<rparr>"

definition lodash_headers :: headers where
  "lodash_headers =
     [''content-type'' \<mapsto> Single ''application/json'',
      ''etag'' \<mapsto> Single ''W/abc'',
      ''last-modified'' \<mapsto> Single ''Tue, 14 Nov 2023 20:13:21 GMT'',
      ''cache-control'' \<mapsto> Single ''public, max-age=300'']"

section \<open>Properties of the interceptor builder\<close>

lemma modifyBody_loop_snoc:
  "modifyBody_loop (funcs @ [func]) body modifiedBody headers =
     func body (snd (modifyBody_loop funcs body modifiedBody headers))"
  by (induction funcs arbitrary: modifiedBody headers) (auto split: prod.splits)

text \<open>
  What the handler does for every context: \<open>modifiesResponse\<close> says whether a body
  modifier was registered, and the modifier registered last is applied to the body the
  handler was given, with the headers as the modifiers before it left them.
\<close>

lemma modifiesResponse_iff: "handler_modifiesResponse (build ctx) = (modifyBodyFuncs ctx \<noteq> [])"
  by (simp add: build_def modifiesResponse_def)

lemma modifyBody_registered_last:
  "handler_modifyBody (build (ctx_modifyBody func ctx)) body headers =
     func body (snd (handler_modifyBody (build ctx) body headers))"
  by (simp add: build_def modifyBody_def ctx_modifyBody_def modifyBody_loop_snoc)

text \<open>
  C6. Two body modifiers registered in order, the first appending \<open>a\<close> and the second
  appending \<open>b\<close>: on the body \<open>x\<close> the built handler returns \<open>xb\<close>, the second modifier
  applied to the original body, where the composition of both gives \<open>xab\<close>. The
  handler's \<open>modifiesResponse\<close> is true there, as a modifier was registered.
\<close>

theorem C6_modifyBody_passes_original_body:
  "handler_modifyBody
     (build (ctx_modifyBody (\<lambda>body (headers::unit). (body @ ''b'', headers))
              (ctx_modifyBody (\<lambda>body headers. (body @ ''a'', headers))
                (createRequestContext ''https://registry.npmjs.org/lodash''
                   :: (string, unit, unit) RequestInterceptionContext))))
     ''x'' () = (''xb'', ())
   \<and> handler_modifiesResponse
     (build (ctx_modifyBody (\<lambda>body (headers::unit). (body @ ''b'', headers))
              (ctx_modifyBody (\<lambda>body headers. (body @ ''a'', headers))
                (createRequestContext ''https://registry.npmjs.org/lodash''
                   :: (string, unit, unit) RequestInterceptionContext))))"
  by (simp add: build_def ctx_modifyBody_def createRequestContext_def modifyBody_def
      modifiesResponse_def)

section \<open>Properties of the wrapper orchestrator\<close>

lemma initializeCliArguments_install:
  "initializeCliArguments [''install'', ''lodash''] cli_initial = ([''install'', ''lodash''], cli_initial)"
  by (simp add: initializeCliArguments_def startsWith_def toLowerCase_def lowerChar_def SAFE_CHAIN_ARG_PREFIX_def
     setIncludePython_def setMinimumPackageAgeHours_def setSkipMinimumPackageAge_def setLoggingLevel_def
     getLastArgEqualsValue_def hasFlagArg_def cli_initial_def)

text \<open>
  C2. When the proxy has started: if the command is scanned and the pre-scan times out
  or its audit disallows a change, \<open>main\<close> returns 1 and never runs the child; if the
  proxy state the child's run leaves holds a blocked request, \<open>main\<close> returns 1 whatever
  the child returned; and when the pre-scan (if any) passed, the child returned a status
  and nothing was blocked, \<open>main\<close> returns that status, having run the child once.
\<close>

theorem C2_exit_code_precedence:
  assumes "startServer_ok env" and "initializeCliArguments args0 cli0 = (args, cli')"
  shows "(shouldScanCommand (isSupportedCommand env) args \<and> scanRace env args = Inr r \<and>
          (timedOut r \<or> (\<exists>a. audit r = Some a \<and> \<not> isAllowed a))
          \<longrightarrow> fst (main env args0 cli0 st) = Inr 1 \<and>
              (\<forall>a. RunCommand a \<notin> set (snd (main env args0 cli0 st))))
       \<and> (\<not> verifyNoMaliciousPackages (snd (runCommand env args st))
          \<longrightarrow> fst (main env args0 cli0 st) = Inr 1)
       \<and> ((\<not> shouldScanCommand (isSupportedCommand env) args \<or>
           (\<exists>r. scanRace env args = Inr r \<and> \<not> timedOut r \<and>
                (audit r = None \<or> (\<exists>a. audit r = Some a \<and> isAllowed a)))) \<and>
          runCommand env args st = (Inr status, st') \<and> verifyNoMaliciousPackages st'
          \<longrightarrow> fst (main env args0 cli0 st) = Inr status \<and>
              snd (main env args0 cli0 st) = [StartServer, RunCommand args, StopServer])"
  using assms
  by (auto simp add: main_def scanCommand_def split: sum.splits prod.splits option.splits if_splits)

theorem C2_witness:
  "fst (main (example_main_env True True [] 0) [''install'', ''lodash''] cli_initial proxy_initial) = Inr 1
   \<and> (\<forall>a. RunCommand a \<notin> set (snd (main (example_main_env True True [] 0) [''install'', ''lodash''] cli_initial proxy_initial)))
   \<and> fst (main (example_main_env False False [] 0) [''install'', ''lodash''] cli_initial proxy_initial) = Inr 1
   \<and> fst (main (example_main_env False True
               [\<lparr> br_packageName = JString ''malicious-package'', br_version = JString ''1.0.0'', br_url = JUndefined \<rparr>] 0)
            [''install'', ''lodash''] cli_initial proxy_initial) = Inr 1
   \<and> fst (main (example_main_env False True [] 7) [''install'', ''lodash''] cli_initial proxy_initial) = Inr 7"
proof -
  note i = initializeCliArguments_install
  have a: "fst (main (example_main_env True True [] 0) [''install'', ''lodash''] cli_initial proxy_initial) = Inr 1
     \<and> (\<forall>a. RunCommand a \<notin> set (snd (main (example_main_env True True [] 0) [''install'', ''lodash''] cli_initial proxy_initial)))"
    using C2_exit_code_precedence [OF _ i, of "example_main_env True True [] 0"
        "\<lparr> timedOut = True, audit = None \<rparr>" proxy_initial]
    by (simp add: example_main_env_def shouldScanCommand_def)
  have b: "fst (main (example_main_env False False [] 0) [''install'', ''lodash''] cli_initial proxy_initial) = Inr 1"
    using C2_exit_code_precedence [OF _ i, of "example_main_env False False [] 0"
        "\<lparr> timedOut = False, audit = Some \<lparr> allowedChanges = [], disallowedChanges = [()], isAllowed = False \<rparr> \<rparr>" proxy_initial]
    by (simp add: example_main_env_def shouldScanCommand_def)
  have c: "fst (main (example_main_env False True
               [\<lparr> br_packageName = JString ''malicious-package'', br_version = JString ''1.0.0'', br_url = JUndefined \<rparr>] 0)
            [''install'', ''lodash''] cli_initial proxy_initial) = Inr 1"
    using C2_exit_code_precedence [OF _ i, of "example_main_env False True
               [\<lparr> br_packageName = JString ''malicious-package'', br_version = JString ''1.0.0'', br_url = JUndefined \<rparr>] 0"
         _ proxy_initial]
    by (simp add: example_main_env_def verifyNoMaliciousPackages_def proxy_initial_def)
  have d: "fst (main (example_main_env False True [] 7) [''install'', ''lodash''] cli_initial proxy_initial) = Inr 7"
    using C2_exit_code_precedence [OF _ i, of "example_main_env False True [] 7" _ proxy_initial 7 proxy_initial]
    by (simp add: example_main_env_def verifyNoMaliciousPackages_def proxy_initial_def shouldScanCommand_def)
  from a b c d show ?thesis by simp
qed

section \<open>Properties of the npm interceptor and the proxy controller\<close>

lemmas handleRequest_defs =
  interceptor_handleRequest_def buildNpmInterceptor_def interceptRequests_def
  buildInterceptor_def handleRequest_def npmSetup_def createRequestContext_def
  blockMalwareSetup_def malwareBlockedEvent_def build_def ctx_modifyBody_def
  ctx_modifyRequestHeaders_def interceptor_on_def on_def

text \<open>
  C1 (as amended). When the oracle reports the pair parsed from the URL as malware, the
  handler's \<open>blockResponse\<close> is 403 with the message \<open>Forbidden - blocked by safe-chain\<close>,
  and the request leaves the listeners' state as exactly one emission of
  \<open>malwareBlocked\<close> does, with the package name, the version, the target URL and the
  clock's milliseconds under the field name \<open>timestamp\<close>.
\<close>

theorem C1_block_contract:
  "parseNpmPackageUrl env u registry = (pn, v) \<Longrightarrow> isMalwarePackage env pn v \<Longrightarrow>
   handler_blockResponse
     (fst (interceptor_handleRequest
            ((buildNpmInterceptor env registry)\<lparr>eventEmitter := em\<rparr>) now u s))
     = Some \<lparr> statusCode = 403, message = ''Forbidden - blocked by safe-chain'' \<rparr>
   \<and> snd (interceptor_handleRequest
            ((buildNpmInterceptor env registry)\<lparr>eventEmitter := em\<rparr>) now u s)
     = emit em ''malwareBlocked''
         [(''packageName'', js_of pn), (''version'', js_of v),
          (''targetUrl'', JString u), (''timestamp'', JNumber now)] s"
  by (simp add: handleRequest_defs split: prod.splits)

theorem C1_witness:
  "handler_blockResponse
     (fst (interceptor_handleRequest
            (interceptor_on (buildNpmInterceptor example_env ''registry.npmjs.org'')
               ''malwareBlocked'' (\<lambda>e log. log @ [e]))
            1700000000000 example_url []))
     = Some \<lparr> statusCode = 403, message = ''Forbidden - blocked by safe-chain'' \<rparr>
   \<and> snd (interceptor_handleRequest
            (interceptor_on (buildNpmInterceptor example_env ''registry.npmjs.org'')
               ''malwareBlocked'' (\<lambda>e log. log @ [e]))
            1700000000000 example_url [])
     = [[(''packageName'', JString ''malicious-package''), (''version'', JString ''1.0.0''),
         (''targetUrl'', JString example_url), (''timestamp'', JNumber 1700000000000)]]"
  using C1_block_contract [of example_env example_url "''registry.npmjs.org''"
      "Some ''malicious-package''" "Some ''1.0.0''"
      "[(''malwareBlocked'', (\<lambda>e log. log @ [e]))]" 1700000000000 "[]"]
  by (simp add: example_env_def interceptor_on_def on_def buildNpmInterceptor_def
      interceptRequests_def buildInterceptor_def emit_def js_of_def)

text \<open>
  C1 as stated fails on the field name: the one event a recording listener sees for the
  blocked request has no field \<open>timestampMillis\<close>.
\<close>

theorem C1_timestampMillis_counterexample:
  "map (\<lambda>e. getProp e ''timestampMillis'')
     (snd (interceptor_handleRequest
            (interceptor_on (buildNpmInterceptor example_env ''registry.npmjs.org'')
               ''malwareBlocked'' (\<lambda>e log. log @ [e]))
            1700000000000 example_url []))
   = [JUndefined]"
  by (simp add: handleRequest_defs example_env_def emit_def getProp_def js_of_def split: prod.splits)

text \<open>
  The controller's list: the listener appends one entry per event and changes nothing
  else, and \<open>verifyNoMaliciousPackages\<close> is true exactly on the empty list.
\<close>

lemma malwareBlockedListener_appends:
  "blockedRequests (malwareBlockedListener event st) =
     blockedRequests st @
       [\<lparr> br_packageName = getProp event ''packageName'', br_version = getProp event ''version'',
          br_url = getProp event ''url'' \<rparr>]"
  by (simp add: malwareBlockedListener_def onMalwareBlocked_def)

lemma verifyNoMaliciousPackages_iff:
  "verifyNoMaliciousPackages st = (blockedRequests st = [])"
  by (simp add: verifyNoMaliciousPackages_def)

lemma blocked_request_response:
  "handler_blockResponse (fst (interceptor_handleRequest interceptor now u s)) = Some blocked \<Longrightarrow>
   fst (mitmHandleRequest gunzipSync gzipSync interceptor now u proxyRes s) =
     Inr \<lparr> res_statusCode = statusCode blocked, res_statusMessage = Some (message blocked),
           res_headers = Map.empty, res_body = message blocked \<rparr>"
  by (cases "interceptor_handleRequest interceptor now u s") (simp add: mitmHandleRequest_def)

text \<open>
  C3. The listener \<open>handleConnect\<close> subscribes reads \<open>event.url\<close>, and the event carries
  the URL as \<open>targetUrl\<close>: for the blocked request of scenario S2 the controller's list
  gains one entry with the package name and the version, and \<open>undefined\<close> as its \<open>url\<close>.
\<close>

theorem C3_blocked_url_is_undefined:
  "map_option
     (\<lambda>interceptor.
        blockedRequests
          (snd (interceptor_handleRequest interceptor 1700000000000 example_url proxy_initial)))
     (handleConnect (npmInterceptorForUrl example_env) ''registry.npmjs.org:443'')
   = Some [\<lparr> br_packageName = JString ''malicious-package'', br_version = JString ''1.0.0'',
             br_url = JUndefined \<rparr>]"
  by (simp add: handleConnect_def npmInterceptorForUrl_def knownJsRegistries_def
      handleRequest_defs example_env_def emit_def getProp_def js_of_def
      malwareBlockedListener_def onMalwareBlocked_def proxy_initial_def split: prod.splits)

section \<open>Properties of the PyPI URL parser\<close>

lemma takeWhile_upto: "c \<notin> set xs \<Longrightarrow> takeWhile (\<lambda>x. x \<noteq> c) (xs @ c # ys) = xs"
  by (induction xs) auto

lemma indexOf_first: "c \<notin> set xs \<Longrightarrow> indexOf (xs @ c # ys) c = Some (length xs)"
  by (simp add: indexOf_def takeWhile_upto)

lemma indexOf_none: "c \<notin> set xs \<Longrightarrow> indexOf xs c = None"
  by (simp add: indexOf_def)

lemma lastIndexOf_last: "c \<notin> set ys \<Longrightarrow> lastIndexOf (xs @ c # ys) c = Some (length xs)"
proof -
  assume a: "c \<notin> set ys"
  then have "takeWhile (\<lambda>x. x \<noteq> c) (rev ys @ c # rev xs) = rev ys"
    by (intro takeWhile_upto) simp
  then show ?thesis by (simp add: lastIndexOf_def)
qed

lemma lastIndexOf_none: "c \<notin> set xs \<Longrightarrow> lastIndexOf xs c = None"
  by (simp add: lastIndexOf_def)

lemma endsWith_append: "endsWith (xs @ ext) ext"
  by (simp add: endsWith_def suffix_def)

lemma toLowerCase_append: "toLowerCase (xs @ ys) = toLowerCase xs @ toLowerCase ys"
  by (simp add: toLowerCase_def)

lemma parsePipFilename_wheel:
  assumes "dist \<noteq> []" "CHR ''-'' \<notin> set dist" "CHR ''-'' \<notin> set ver"
    and "rest = [] \<or> hd rest = CHR ''-''"
  shows "parsePipFilename (dist @ ''-'' @ ver @ rest @ ''.whl'') =
           (if ver = ''latest'' \<or> ver = [] then (None, None) else (Some dist, Some ver))"
proof -
  define f where "f = dist @ ''-'' @ ver @ rest @ ''.whl''"
  define base where "base = dist @ CHR ''-'' # (ver @ rest)"
  have e: "endsWith f ''.whl''"
    using endsWith_append [of "dist @ ''-'' @ ver @ rest" "''.whl''"] by (simp add: f_def)
  have b: "take (length f - 4) f = base" by (simp add: f_def base_def)
  have i1: "indexOf base CHR ''-'' = Some (length dist)"
    unfolding base_def using assms(2) by (rule indexOf_first)
  have d: "drop (Suc (length dist)) base = ver @ rest" by (simp add: base_def)
  have t: "take (length dist) base = dist" by (simp add: base_def)
  have "parsePipFilename f =
           (if ver = ''latest'' \<or> ver = [] then (None, None) else (Some dist, Some ver))"
  proof (cases rest)
    case Nil
    then have "indexOf (ver @ rest) CHR ''-'' = None"
      using assms(3) by (simp add: indexOf_none)
    then show ?thesis
      unfolding parsePipFilename_def Let_def
      using assms(1) Nil by (simp add: e b i1 d t)
  next
    case (Cons a tags)
    with assms(4) have r: "rest = CHR ''-'' # tags" by simp
    then have "indexOf (ver @ rest) CHR ''-'' = Some (length ver)"
      using indexOf_first [OF assms(3), of tags] by simp
    then show ?thesis
      unfolding parsePipFilename_def Let_def
      using assms(1) by (simp add: e b i1 d t)
  qed
  then show ?thesis by (simp add: f_def)
qed

lemma parsePipFilename_sdist:
  assumes "ext \<in> set [''.tar.gz'', ''.zip'', ''.tar.bz2'', ''.tar.xz'']"
    and "pkg \<noteq> []" "CHR ''-'' \<notin> set ver"
  shows "parsePipFilename (pkg @ ''-'' @ ver @ ext) =
           (if ver = ''latest'' \<or> ver = [] then (None, None) else (Some pkg, Some ver))"
proof -
  define f where "f = pkg @ ''-'' @ ver @ ext"
  define base where "base = pkg @ CHR ''-'' # ver"
  have f: "f = base @ ext" by (simp add: f_def base_def)
  have w: "\<not> endsWith f ''.whl''"
    unfolding f using assms(1)
    by (auto simp add: endsWith_def suffix_def append_eq_append_conv2 Cons_eq_append_conv)
  have l: "toLowerCase f = toLowerCase base @ ext"
    unfolding f using assms(1) by (auto simp add: toLowerCase_def lowerChar_def)
  have m: "sdistExtMatch f = Some ext"
    using assms(1) unfolding sdistExtMatch_def l endsWith_def
    by (auto simp add: suffix_def)
  have b: "take (length f - length ext) f = base" by (simp add: f)
  have i: "lastIndexOf base CHR ''-'' = Some (length pkg)"
    unfolding base_def using assms(3) by (rule lastIndexOf_last)
  have d: "drop (Suc (length pkg)) base = ver" by (simp add: base_def)
  have t: "take (length pkg) base = pkg" by (simp add: base_def)
  have n: "length base = Suc (length pkg + length ver)" by (simp add: base_def)
  have "parsePipFilename f =
           (if ver = ''latest'' \<or> ver = [] then (None, None) else (Some pkg, Some ver))"
    unfolding parsePipFilename_def Let_def
    using assms(2) by (simp add: w m b i d t n)
  then show ?thesis by (simp add: f_def)
qed

lemma parsePipFilename_neither:
  assumes "\<not> endsWith filename ''.whl''"
    and "\<forall>ext \<in> set [''.tar.gz'', ''.zip'', ''.tar.bz2'', ''.tar.xz'']. \<not> endsWith (toLowerCase filename) ext"
  shows "parsePipFilename filename = (None, None)"
  using assms by (simp add: parsePipFilename_def sdistExtMatch_def)

lemma parsePipFilename_never_latest:
  "snd (parsePipFilename filename) \<noteq> Some ''latest''"
  by (simp add: parsePipFilename_def Let_def split: option.splits)

lemma indexOf_SomeD:
  assumes "indexOf s c = Some i"
  shows "s = take i s @ c # drop (Suc i) s" and "c \<notin> set (take i s)"
proof -
  from assms have m: "c \<in> set s" and i: "i = length (takeWhile (\<lambda>x. x \<noteq> c) s)"
    by (auto simp add: indexOf_def split: if_splits)
  from m obtain ys zs where s: "s = ys @ c # zs" "c \<notin> set ys"
    by (auto dest: split_list_first)
  have "takeWhile (\<lambda>x. x \<noteq> c) s = ys" unfolding s(1) using s(2) by (rule takeWhile_upto)
  with i have "i = length ys" by simp
  then show "s = take i s @ c # drop (Suc i) s" and "c \<notin> set (take i s)"
    using s by simp_all
qed

lemma lastIndexOf_SomeD:
  assumes "lastIndexOf s c = Some i"
  shows "s = take i s @ c # drop (Suc i) s" and "c \<notin> set (drop (Suc i) s)"
proof -
  from assms have m: "c \<in> set s"
    and i: "i = length s - 1 - length (takeWhile (\<lambda>x. x \<noteq> c) (rev s))"
    by (auto simp add: lastIndexOf_def split: if_splits)
  from m obtain ys zs where s: "s = ys @ c # zs" "c \<notin> set zs"
    by (auto dest: split_list_last)
  have "takeWhile (\<lambda>x. x \<noteq> c) (rev s) = rev zs"
    unfolding s(1) using s(2) takeWhile_upto [of c "rev zs" "rev ys"] by simp
  with i have "i = length ys" by (simp add: s(1))
  then show "s = take i s @ c # drop (Suc i) s" and "c \<notin> set (drop (Suc i) s)"
    using s by simp_all
qed

lemma endsWithD: "endsWith f ext \<Longrightarrow> f = take (length f - length ext) f @ ext"
  by (auto simp add: endsWith_def suffix_def)

lemma sdistExtMatch_SomeD:
  assumes "sdistExtMatch f = Some e"
  shows "\<exists>ext. f = take (length f - length e) f @ ext \<and> toLowerCase ext = e \<and>
           e \<in> set [''.tar.gz'', ''.zip'', ''.tar.bz2'', ''.tar.xz'']"
proof -
  from assms have e: "e \<in> set [''.tar.gz'', ''.zip'', ''.tar.bz2'', ''.tar.xz'']"
    and w: "endsWith (toLowerCase f) e"
    unfolding sdistExtMatch_def by (auto split: if_splits)
  from endsWithD [OF w] have
    "toLowerCase f = take (length f - length e) (toLowerCase f) @ e"
    by (simp add: toLowerCase_def)
  then have "drop (length f - length e) (toLowerCase f) = e"
    by (metis append_eq_conv_conj length_map length_take min.absorb2 diff_le_self toLowerCase_def)
  then have "toLowerCase (drop (length f - length e) f) = e"
    by (simp add: toLowerCase_def drop_map)
  with e show ?thesis
    by (intro exI [of _ "drop (length f - length e) f"]) simp
qed

lemma parsePipFilename_SomeD:
  assumes "parsePipFilename f = (Some n, Some v)"
  shows "(\<exists>rest. f = n @ ''-'' @ v @ rest @ ''.whl'' \<and> CHR ''-'' \<notin> set n \<and>
                 CHR ''-'' \<notin> set v \<and> (rest = [] \<or> hd rest = CHR ''-''))
       \<or> (\<exists>ext. f = n @ ''-'' @ v @ ext \<and>
                 toLowerCase ext \<in> set [''.tar.gz'', ''.zip'', ''.tar.bz2'', ''.tar.xz''] \<and>
                 CHR ''-'' \<notin> set v)"
proof (cases "endsWith f ''.whl'' \<and> (\<exists>i. indexOf (take (length f - 4) f) CHR ''-'' = Some i \<and> i > 0)")
  case True
  then obtain i where w: "endsWith f ''.whl''"
    and i: "indexOf (take (length f - 4) f) CHR ''-'' = Some i" "i > 0" by blast
  define base where "base = take (length f - 4) f"
  from endsWithD [OF w] have f: "f = base @ ''.whl''"
    by (simp add: base_def numeral_eq_Suc)
  from indexOf_SomeD [OF i(1)] have b: "base = take i base @ CHR ''-'' # (drop (Suc i) base)"
    and nd: "CHR ''-'' \<notin> set (take i base)"
    by (simp_all add: base_def [symmetric])
  from assms w i have r: "n = take i base"
    "v = (case indexOf (drop (Suc i) base) CHR ''-'' of Some j \<Rightarrow> take j (drop (Suc i) base) | None \<Rightarrow> (drop (Suc i) base))"
    by (auto simp add: parsePipFilename_def Let_def base_def [symmetric]
        split: if_splits)
  have "\<exists>rest. (drop (Suc i) base) = v @ rest \<and> CHR ''-'' \<notin> set v \<and> (rest = [] \<or> hd rest = CHR ''-'')"
  proof (cases "indexOf (drop (Suc i) base) CHR ''-''")
    case None
    then have "CHR ''-'' \<notin> set (drop (Suc i) base)" by (simp add: indexOf_def split: if_splits)
    with None r(2) show ?thesis by simp
  next
    case (Some j)
    define tl0 where "tl0 = drop (Suc j) (drop (Suc i) base)"
    from indexOf_SomeD [OF Some] r(2) Some
    have "drop (Suc i) base = v @ CHR ''-'' # tl0" "CHR ''-'' \<notin> set v"
      by (simp_all add: tl0_def)
    then show ?thesis by (intro exI [of _ "CHR ''-'' # tl0"]) simp
  qed
  then obtain rest where rest: "(drop (Suc i) base) = v @ rest" "CHR ''-'' \<notin> set v"
    "rest = [] \<or> hd rest = CHR ''-''" by blast
  have "f = n @ ''-'' @ v @ rest @ ''.whl''"
    using f b r(1) rest(1) by simp
  with nd r(1) rest(2,3) show ?thesis by blast
next
  case False
  then have wheel: "(if endsWith f ''.whl''
             then (let base = take (length f - 4) f
                   in case indexOf base CHR ''-'' of
                        None \<Rightarrow> None
                      | Some firstDash \<Rightarrow>
                          if firstDash > 0
                          then (let dist = take firstDash base;
                                    rest = drop (firstDash + 1) base;
                                    rawVersion = (case indexOf rest CHR ''-'' of
                                                    Some secondDash \<Rightarrow> take secondDash rest
                                                  | None \<Rightarrow> rest)
                                in if rawVersion = ''latest'' \<or> dist = [] \<or> rawVersion = []
                                   then Some (None, None)
                                   else Some (Some dist, Some rawVersion))
                          else None)
             else None) = (None :: (string option \<times> string option) option)"
    by (auto simp add: Let_def split: option.splits)
  from assms obtain e where e: "sdistExtMatch f = Some e"
    unfolding parsePipFilename_def wheel by (auto split: option.splits)
  define base where "base = take (length f - length e) f"
  from sdistExtMatch_SomeD [OF e] obtain ext where ext: "f = base @ ext"
    "toLowerCase ext = e" "e \<in> set [''.tar.gz'', ''.zip'', ''.tar.bz2'', ''.tar.xz'']"
    by (auto simp add: base_def)
  from assms e obtain i where i: "lastIndexOf base CHR ''-'' = Some i"
    and r: "n = take i base" "v = drop (Suc i) base"
    unfolding parsePipFilename_def wheel
    by (auto simp add: Let_def base_def [symmetric] split: option.splits if_splits)
  from lastIndexOf_SomeD [OF i] r have "base = n @ CHR ''-'' # v" "CHR ''-'' \<notin> set v"
    by simp_all
  with ext show ?thesis by auto
qed

lemma parsePipFilename_both_or_none:
  "parsePipFilename f = (a, b) \<Longrightarrow> (a = None) = (b = None)"
  by (auto simp add: parsePipFilename_def Let_def split: option.splits if_splits)

text \<open>
  C9. Let \<open>filename\<close> be the decoded last path segment of the URL. A wheel name
  \<open>dist-ver(-tags).whl\<close> gives the text before the first \<open>-\<close> as the name and the field
  after it, up to the second \<open>-\<close>, as the version; an sdist name \<open>pkg-ver\<close> followed by
  one of the four extensions gives the text before the last \<open>-\<close> as the name and the
  text after it as the version; a wheel or an sdist whose version field is \<open>latest\<close>,
  and a name that ends in none of the five extensions, give \<open>(undefined, undefined)\<close>.
  No URL gives the version \<open>latest\<close>; a name and a version are returned only for a
  file name of one of the two shapes, split as said; and either both are returned or
  neither is.
\<close>

theorem C9_parsePipPackageFromUrl:
  assumes "registry \<noteq> []" and "URL_pathname u = Some pathname"
    and "lastPathSegment pathname = Some seg" and "decodeURIComponent seg = Some filename"
  shows
    "(filename = dist @ ''-'' @ ver @ rest @ ''.whl'' \<and> dist \<noteq> [] \<and> CHR ''-'' \<notin> set dist \<and>
      CHR ''-'' \<notin> set ver \<and> (rest = [] \<or> hd rest = CHR ''-'') \<and> ver \<noteq> [] \<and> ver \<noteq> ''latest''
      \<longrightarrow> parsePipPackageFromUrl URL_pathname decodeURIComponent u registry
            = Inr (Some dist, Some ver))
   \<and> (filename = pkg @ ''-'' @ sver @ ext \<and>
      ext \<in> set [''.tar.gz'', ''.zip'', ''.tar.bz2'', ''.tar.xz''] \<and> pkg \<noteq> [] \<and>
      CHR ''-'' \<notin> set sver \<and> sver \<noteq> [] \<and> sver \<noteq> ''latest''
      \<longrightarrow> parsePipPackageFromUrl URL_pathname decodeURIComponent u registry
            = Inr (Some pkg, Some sver))
   \<and> ((filename = wdist @ ''-latest'' @ wrest @ ''.whl'' \<and> wdist \<noteq> [] \<and> CHR ''-'' \<notin> set wdist \<and>
       (wrest = [] \<or> hd wrest = CHR ''-''))
      \<or> (filename = spkg @ ''-latest'' @ sext \<and>
          sext \<in> set [''.tar.gz'', ''.zip'', ''.tar.bz2'', ''.tar.xz''] \<and> spkg \<noteq> [])
      \<or> (\<not> endsWith filename ''.whl'' \<and>
          (\<forall>e \<in> set [''.tar.gz'', ''.zip'', ''.tar.bz2'', ''.tar.xz''].
             \<not> endsWith (toLowerCase filename) e))
      \<longrightarrow> parsePipPackageFromUrl URL_pathname decodeURIComponent u registry
            = Inr (None, None))
   \<and> (\<forall>p. parsePipPackageFromUrl URL_pathname decodeURIComponent u registry
            \<noteq> Inr (p, Some ''latest''))
   \<and> (\<forall>n v. parsePipPackageFromUrl URL_pathname decodeURIComponent u registry
              = Inr (Some n, Some v) \<longrightarrow>
          (\<exists>tags. filename = n @ ''-'' @ v @ tags @ ''.whl'' \<and> CHR ''-'' \<notin> set n \<and>
                  CHR ''-'' \<notin> set v \<and> (tags = [] \<or> hd tags = CHR ''-''))
          \<or> (\<exists>e. filename = n @ ''-'' @ v @ e \<and>
                  toLowerCase e \<in> set [''.tar.gz'', ''.zip'', ''.tar.bz2'', ''.tar.xz''] \<and>
                  CHR ''-'' \<notin> set v))
   \<and> (\<forall>a b. parsePipPackageFromUrl URL_pathname decodeURIComponent u registry = Inr (a, b)
              \<longrightarrow> (a = None) = (b = None))"
proof -
  have r: "parsePipPackageFromUrl URL_pathname decodeURIComponent u registry
             = Inr (parsePipFilename filename)"
    using assms by (simp add: parsePipPackageFromUrl_def)
  have l: "CHR ''-'' \<notin> set ''latest''" by simp
  have w: "parsePipFilename (wdist @ ''-latest'' @ wrest @ ''.whl'') = (None, None)"
    if "wdist \<noteq> []" "CHR ''-'' \<notin> set wdist" "wrest = [] \<or> hd wrest = CHR ''-''"
    using parsePipFilename_wheel [OF that(1) that(2) l that(3)] by simp
  have s: "parsePipFilename (spkg @ ''-latest'' @ sext) = (None, None)"
    if "sext \<in> set [''.tar.gz'', ''.zip'', ''.tar.bz2'', ''.tar.xz'']" "spkg \<noteq> []"
    using parsePipFilename_sdist [OF that(1) that(2) l] by simp
  have n: "parsePipFilename filename \<noteq> (p, Some ''latest'')" for p
    using parsePipFilename_never_latest [of filename] by auto
  have c: "(\<exists>tags. filename = a @ ''-'' @ b @ tags @ ''.whl'' \<and> CHR ''-'' \<notin> set a \<and>
                  CHR ''-'' \<notin> set b \<and> (tags = [] \<or> hd tags = CHR ''-''))
          \<or> (\<exists>e. filename = a @ ''-'' @ b @ e \<and>
                  toLowerCase e \<in> set [''.tar.gz'', ''.zip'', ''.tar.bz2'', ''.tar.xz''] \<and>
                  CHR ''-'' \<notin> set b)"
    if "parsePipFilename filename = (Some a, Some b)" for a b
    using that by (rule parsePipFilename_SomeD)
  have first4: "(filename = dist @ ''-'' @ ver @ rest @ ''.whl'' \<and> dist \<noteq> [] \<and> CHR ''-'' \<notin> set dist \<and>
      CHR ''-'' \<notin> set ver \<and> (rest = [] \<or> hd rest = CHR ''-'') \<and> ver \<noteq> [] \<and> ver \<noteq> ''latest''
      \<longrightarrow> parsePipFilename filename = (Some dist, Some ver))
   \<and> (filename = pkg @ ''-'' @ sver @ ext \<and>
      ext \<in> set [''.tar.gz'', ''.zip'', ''.tar.bz2'', ''.tar.xz''] \<and> pkg \<noteq> [] \<and>
      CHR ''-'' \<notin> set sver \<and> sver \<noteq> [] \<and> sver \<noteq> ''latest''
      \<longrightarrow> parsePipFilename filename = (Some pkg, Some sver))
   \<and> ((filename = wdist @ ''-latest'' @ wrest @ ''.whl'' \<and> wdist \<noteq> [] \<and> CHR ''-'' \<notin> set wdist \<and>
       (wrest = [] \<or> hd wrest = CHR ''-''))
      \<or> (filename = spkg @ ''-latest'' @ sext \<and>
          sext \<in> set [''.tar.gz'', ''.zip'', ''.tar.bz2'', ''.tar.xz''] \<and> spkg \<noteq> [])
      \<or> (\<not> endsWith filename ''.whl'' \<and>
          (\<forall>e \<in> set [''.tar.gz'', ''.zip'', ''.tar.bz2'', ''.tar.xz''].
             \<not> endsWith (toLowerCase filename) e))
      \<longrightarrow> parsePipFilename filename = (None, None))
   \<and> (\<forall>p. parsePipFilename filename \<noteq> (p, Some ''latest''))"
    using parsePipFilename_wheel [of dist ver rest] parsePipFilename_sdist [of ext pkg sver]
      parsePipFilename_neither [of filename] w s n
    by auto
  have c': "\<forall>n v. parsePipFilename filename = (Some n, Some v) \<longrightarrow>
          (\<exists>tags. filename = n @ ''-'' @ v @ tags @ ''.whl'' \<and> CHR ''-'' \<notin> set n \<and>
                  CHR ''-'' \<notin> set v \<and> (tags = [] \<or> hd tags = CHR ''-''))
          \<or> (\<exists>e. filename = n @ ''-'' @ v @ e \<and>
                  toLowerCase e \<in> set [''.tar.gz'', ''.zip'', ''.tar.bz2'', ''.tar.xz''] \<and>
                  CHR ''-'' \<notin> set v)"
    by (intro allI impI) (erule c)
  have b': "\<forall>a b. parsePipFilename filename = (a, b) \<longrightarrow> (a = None) = (b = None)"
    by (intro allI impI) (erule parsePipFilename_both_or_none)
  show ?thesis
    unfolding r sum.inject
    apply (intro conjI)
    apply (rule first4 [THEN conjunct1])
    apply (rule first4 [THEN conjunct2, THEN conjunct1])
    apply (rule first4 [THEN conjunct2, THEN conjunct2, THEN conjunct1])
    apply (rule first4 [THEN conjunct2, THEN conjunct2, THEN conjunct2])
    apply (rule c')
    apply (rule b')
    done
qed

theorem C9_witness:
  "parsePipPackageFromUrl example_URL_pathname Some
     ''https://files.pythonhosted.org/packages/xx/yy/foo_bar-2.0.0-py3-none-any.whl''
     ''files.pythonhosted.org'' = Inr (Some ''foo_bar'', Some ''2.0.0'')
   \<and> parsePipPackageFromUrl example_URL_pathname Some
     ''https://pypi.org/packages/source/f/foo-bar/foo-bar-0.9.0.tar.gz''
     ''pypi.org'' = Inr (Some ''foo-bar'', Some ''0.9.0'')
   \<and> parsePipPackageFromUrl example_URL_pathname Some
     ''https://files.pythonhosted.org/packages/xx/yy/foobar-latest.tar.gz''
     ''files.pythonhosted.org'' = Inr (None, None)
   \<and> parsePipPackageFromUrl example_URL_pathname Some
     ''https://pypi.org/simple/'' ''pypi.org'' = Inr (None, None)"
proof -
  have a: "parsePipPackageFromUrl example_URL_pathname Some
     ''https://files.pythonhosted.org/packages/xx/yy/foo_bar-2.0.0-py3-none-any.whl''
     ''files.pythonhosted.org'' = Inr (Some ''foo_bar'', Some ''2.0.0'')"
    using C9_parsePipPackageFromUrl [of "''files.pythonhosted.org''" example_URL_pathname
        "''https://files.pythonhosted.org/packages/xx/yy/foo_bar-2.0.0-py3-none-any.whl''"
        "''/packages/xx/yy/foo_bar-2.0.0-py3-none-any.whl''"
        "''foo_bar-2.0.0-py3-none-any.whl''" Some "''foo_bar-2.0.0-py3-none-any.whl''"
        "''foo_bar''" "''2.0.0''" "''-py3-none-any''"]
    by (simp add: example_URL_pathname_def lastPathSegment_def)
  have b: "parsePipPackageFromUrl example_URL_pathname Some
     ''https://pypi.org/packages/source/f/foo-bar/foo-bar-0.9.0.tar.gz''
     ''pypi.org'' = Inr (Some ''foo-bar'', Some ''0.9.0'')"
    using C9_parsePipPackageFromUrl [of "''pypi.org''" example_URL_pathname
        "''https://pypi.org/packages/source/f/foo-bar/foo-bar-0.9.0.tar.gz''"
        "''/packages/source/f/foo-bar/foo-bar-0.9.0.tar.gz''"
        "''foo-bar-0.9.0.tar.gz''" Some "''foo-bar-0.9.0.tar.gz''"
        _ _ _ "''foo-bar''" "''0.9.0''" "''.tar.gz''"]
    by (simp add: example_URL_pathname_def lastPathSegment_def)
  have c: "parsePipPackageFromUrl example_URL_pathname Some
     ''https://files.pythonhosted.org/packages/xx/yy/foobar-latest.tar.gz''
     ''files.pythonhosted.org'' = Inr (None, None)"
    using C9_parsePipPackageFromUrl [of "''files.pythonhosted.org''" example_URL_pathname
        "''https://files.pythonhosted.org/packages/xx/yy/foobar-latest.tar.gz''"
        "''/packages/xx/yy/foobar-latest.tar.gz''"
        "''foobar-latest.tar.gz''" Some "''foobar-latest.tar.gz''"
        _ _ _ _ _ _ _ _ "''foobar''" "''.tar.gz''"]
    by (simp add: example_URL_pathname_def lastPathSegment_def)
  have d: "parsePipPackageFromUrl example_URL_pathname Some
     ''https://pypi.org/simple/'' ''pypi.org'' = Inr (None, None)"
    using C9_parsePipPackageFromUrl [of "''pypi.org''" example_URL_pathname
        "''https://pypi.org/simple/''" "''/simple/''" "''simple''" Some "''simple''"]
    by (simp add: example_URL_pathname_def lastPathSegment_def endsWith_def suffix_def
        toLowerCase_def lowerChar_def append_eq_append_conv2 Cons_eq_append_conv)
  from a b c d show ?thesis by simp
qed

section \<open>Properties of the npm metadata rewriter\<close>

lemma deleteCachingHeaders_idem:
  "deleteCachingHeaders (deleteCachingHeaders h) = deleteCachingHeaders h"
  by (simp add: deleteCachingHeaders_def)

lemma removeLoop_eq:
  "removeLoop e D c vs json h =
     (fold (\<lambda>v j. deleteVersionFromJson j v)
        (map fst (filter (\<lambda>(version, timestamp). \<not> e \<and> isAfter (D timestamp) c) vs)) json,
      if filter (\<lambda>(version, timestamp). \<not> e \<and> isAfter (D timestamp) c) vs = [] then h
      else map_option deleteCachingHeaders h)"
proof (induction vs arbitrary: json h)
  case Nil
  then show ?case by simp
next
  case (Cons a vs)
  obtain v ts where a: "a = (v, ts)" by (cases a)
  show ?case
  proof (cases "\<not> e \<and> isAfter (D ts) c")
    case True
    then show ?thesis
      unfolding a
      using Cons.IH [of "deleteVersionFromJson json v" "map_option deleteCachingHeaders h"]
      by (simp add: option.map_comp comp_def deleteCachingHeaders_idem)
  next
    case False
    then show ?thesis
      unfolding a using Cons.IH [of json h] by auto
  qed
qed

lemma delete_time: "time (deleteVersionFromJson json v) = map_option (delete_key v) (time json)"
  by (simp add: deleteVersionFromJson_def)

lemma delete_versions:
  "versions (deleteVersionFromJson json v) = map_option (delete_key v) (versions json)"
  by (simp add: deleteVersionFromJson_def)

lemma delete_key_filter:
  "filter (\<lambda>(k, x). k \<notin> set R) (delete_key v t) = filter (\<lambda>(k, x). k \<notin> set (v # R)) t"
  by (auto simp add: delete_key_def intro!: filter_cong)

lemma fold_delete_time:
  "time (fold (\<lambda>v j. deleteVersionFromJson j v) R json) =
     map_option (filter (\<lambda>(k, x). k \<notin> set R)) (time json)"
proof (induction R arbitrary: json)
  case Nil
  then show ?case by (simp add: option.map_ident)
next
  case (Cons v R)
  show ?case
    using Cons.IH [of "deleteVersionFromJson json v"]
    by (cases "time json") (simp_all add: delete_time delete_key_filter del: set_simps)
qed

lemma fold_delete_versions:
  "versions (fold (\<lambda>v j. deleteVersionFromJson j v) R json) =
     map_option (filter (\<lambda>(k, x). k \<notin> set R)) (versions json)"
proof (induction R arbitrary: json)
  case Nil
  then show ?case by (simp add: option.map_ident)
next
  case (Cons v R)
  show ?case
    using Cons.IH [of "deleteVersionFromJson json v"]
    by (cases "versions json") (simp_all add: delete_versions delete_key_filter del: set_simps)
qed

lemma fold_delete_name:
  "name (fold (\<lambda>v j. deleteVersionFromJson j v) R json) = name json"
proof (induction R arbitrary: json)
  case Nil
  then show ?case by simp
next
  case (Cons v R)
  show ?case using Cons.IH [of "deleteVersionFromJson json v"]
    by (simp add: deleteVersionFromJson_def)
qed

lemma fold_delete_more:
  "packument.more (fold (\<lambda>v j. deleteVersionFromJson j v) R json) = packument.more json"
proof (induction R arbitrary: json)
  case Nil
  then show ?case by simp
next
  case (Cons v R)
  show ?case using Cons.IH [of "deleteVersionFromJson json v"]
    by (simp add: deleteVersionFromJson_def)
qed

lemma delete_tags_fold:
  "fold (\<lambda>(tag, distVersion) ts. if v = distVersion then delete_key tag ts else ts) es ts =
     filter (\<lambda>(k, x). k \<notin> fst ` {e \<in> set es. snd e = v}) ts"
proof (induction es arbitrary: ts)
  case Nil
  then show ?case by simp
next
  case (Cons e es)
  obtain tag dv where e: "e = (tag, dv)" by (cases e)
  show ?case
    unfolding e
    by (auto simp add: Cons.IH delete_key_def image_iff intro!: filter_cong)
qed

lemma delete_tags_distinct:
  assumes "distinct (map fst ts)"
  shows "fold (\<lambda>(tag, distVersion) ts'. if v = distVersion then delete_key tag ts' else ts') ts ts =
     filter (\<lambda>(k, x). x \<noteq> v) ts"
proof -
  have "(k \<notin> fst ` {e \<in> set ts. snd e = v}) = (x \<noteq> v)" if "(k, x) \<in> set ts" for k x
    using that assms by (force simp add: image_iff dest: eq_key_imp_eq_value)
  then show ?thesis
    unfolding delete_tags_fold by (auto intro!: filter_cong)
qed

lemma fold_delete_dist_tags:
  assumes "dist_tags json = Some tags" "distinct (map fst tags)"
  shows "dist_tags (fold (\<lambda>v j. deleteVersionFromJson j v) R json) =
     Some (filter (\<lambda>(k, x). x \<notin> set R) tags)"
  using assms
proof (induction R arbitrary: json tags)
  case Nil
  then show ?case by simp
next
  case (Cons v R)
  have d: "dist_tags (deleteVersionFromJson json v) = Some (filter (\<lambda>(k, x). x \<noteq> v) tags)"
    using Cons.prems by (simp add: deleteVersionFromJson_def delete_tags_distinct)
  have "distinct (map fst (filter (\<lambda>(k, x). x \<noteq> v) tags))"
    using Cons.prems(2) by (rule distinct_map_filter)
  from Cons.IH [OF d this] show ?case
    by (auto intro!: filter_cong)
qed

lemma modifyNpmInfoResponse_eq:
  "modifyNpmInfoResponse P S D N now body headers =
     (case packumentOf P body headers of
        None \<Rightarrow> (body, headers)
      | Some (j, e) \<Rightarrow> (S (fst (rewritePackument e D N now j headers)),
                        snd (rewritePackument e D N now j headers)))"
  by (simp add: modifyNpmInfoResponse_def packumentOf_def split: option.splits sum.splits prod.splits)

lemma packumentOf_fields:
  assumes "packumentOf P body headers = Some (j, e)"
  shows "P body = Some j" "time j \<noteq> None" "dist_tags j \<noteq> None" "versions j \<noteq> None"
    "isPackageExemptFromAgeCheck (name j) = Inr e"
  using assms by (auto simp add: packumentOf_def split: option.splits sum.splits if_splits)

lemma rewritePackument_eq:
  "rewritePackument e D N now j h =
     (let R = removedVersions e D (cutOff N now) (case time j of None \<Rightarrow> [] | Some t \<Rightarrow> t);
          jl = fold (\<lambda>v j'. deleteVersionFromJson j' v) R j
      in (if hasLatest (dist_tags j) \<and> \<not> hasLatest (dist_tags jl)
          then (case calculateLatestTag (case time jl of None \<Rightarrow> [] | Some t \<Rightarrow> t) of
                  None \<Rightarrow> jl
                | Some v \<Rightarrow> jl\<lparr>dist_tags := map_option (\<lambda>ts. assign ts ''latest'' v) (dist_tags jl)\<rparr>)
          else jl,
          if R = [] then h else map_option deleteCachingHeaders h))"
  by (simp add: rewritePackument_def removeLoop_eq removedVersions_def Let_def)

lemma rewritePackument_headers:
  assumes "time j = Some t"
  shows "snd (rewritePackument e D N now j h) =
     (if removedVersions e D (cutOff N now) t = [] then h else map_option deleteCachingHeaders h)"
  using assms by (simp add: rewritePackument_eq Let_def)

lemma rewritePackument_unchanged:
  assumes "time j = Some t" "removedVersions e D (cutOff N now) t = []"
  shows "fst (rewritePackument e D N now j h) = j"
  using assms by (simp add: rewritePackument_eq Let_def)

lemma removedVersions_exempt: "removedVersions True D c t = []"
  by (simp add: removedVersions_def)

lemma npm_handler_modifyBody:
  assumes "\<not> skipMinimumPackageAge (cli env)" "isPackageInfoUrl u"
  shows "handler_modifiesResponse
           (fst (interceptor_handleRequest (buildNpmInterceptor env registry) now u s))"
    and "handler_modifyBody
           (fst (interceptor_handleRequest (buildNpmInterceptor env registry) now u s)) =
         modifyNpmInfoResponse (JSON_parse env) (JSON_stringify env) (Date_parse env)
           (getMinimumPackageAgeHours env) now"
  using assms
  by (auto simp add: handleRequest_defs modifyBody_def modifiesResponse_def fun_eq_iff
      split: prod.splits)


text \<open>
  C7. For a package-info request through the npm interceptor, with the age check on:
  the headers the client is sent are the upstream headers without \<open>etag\<close>,
  \<open>last-modified\<close> and \<open>cache-control\<close> when the rewriter removes at least one version,
  and the upstream headers as they are when it removes none; it removes none from an
  exempt package, and none where it returns the body without rewriting.
\<close>

theorem C7_caching_headers:
  assumes "\<not> skipMinimumPackageAge (cli env)" and "isPackageInfoUrl u"
    and "up_statusCode proxyRes \<noteq> 0"
    and "(if isGzip (up_headers proxyRes) then gunzipSync (up_body proxyRes)
          else Some (up_body proxyRes)) = Some buffer"
  shows "\<exists>r. proxyResponse gunzipSync gzipSync
              (fst (interceptor_handleRequest (buildNpmInterceptor env registry) now u s))
              proxyRes = Inr r \<and>
          (\<forall>j e t. packumentOf (JSON_parse env) buffer (Some (up_headers proxyRes)) = Some (j, e) \<and>
                   time j = Some t \<longrightarrow>
             (removedVersions e (Date_parse env)
                (cutOff (getMinimumPackageAgeHours env) now) t \<noteq> [] \<longrightarrow>
                res_headers r = deleteCachingHeaders (up_headers proxyRes) \<and>
                res_headers r ''etag'' = None \<and> res_headers r ''last-modified'' = None \<and>
                res_headers r ''cache-control'' = None) \<and>
             (removedVersions e (Date_parse env)
                (cutOff (getMinimumPackageAgeHours env) now) t = [] \<longrightarrow>
                res_headers r = up_headers proxyRes) \<and>
             (e \<longrightarrow> res_headers r = up_headers proxyRes)) \<and>
          (packumentOf (JSON_parse env) buffer (Some (up_headers proxyRes)) = None \<longrightarrow>
             res_headers r = up_headers proxyRes)"
proof -
  define handler where
    "handler = fst (interceptor_handleRequest (buildNpmInterceptor env registry) now u s)"
  define out where
    "out = modifyNpmInfoResponse (JSON_parse env) (JSON_stringify env) (Date_parse env)
             (getMinimumPackageAgeHours env) now buffer (Some (up_headers proxyRes))"
  define hs where "hs = (case snd out of None \<Rightarrow> up_headers proxyRes | Some h \<Rightarrow> h)"
  define r where
    "r = \<lparr> res_statusCode = up_statusCode proxyRes, res_statusMessage = None, res_headers = hs,
           res_body = (if isGzip hs then gzipSync (fst out) else fst out) \<rparr>"
  have m: "handler_modifiesResponse handler"
    unfolding handler_def by (rule npm_handler_modifyBody(1) [OF assms(1,2)])
  have b: "handler_modifyBody handler buffer (Some (up_headers proxyRes)) = out"
    unfolding handler_def out_def by (simp only: npm_handler_modifyBody(2) [OF assms(1,2)])
  have p: "proxyResponse gunzipSync gzipSync handler proxyRes = Inr r"
    unfolding proxyResponse_def using assms(3,4) m b
    by (simp add: r_def hs_def Let_def split: prod.splits)
  have n: "res_headers r = up_headers proxyRes"
    if "packumentOf (JSON_parse env) buffer (Some (up_headers proxyRes)) = None"
    using that by (simp add: r_def hs_def out_def modifyNpmInfoResponse_eq)
  have c: "res_headers r =
             (if removedVersions e (Date_parse env)
                   (cutOff (getMinimumPackageAgeHours env) now) t = []
              then up_headers proxyRes
              else deleteCachingHeaders (up_headers proxyRes))"
    if "packumentOf (JSON_parse env) buffer (Some (up_headers proxyRes)) = Some (j, e)"
      and "time j = Some t" for j e t
    using that
    by (simp add: r_def hs_def out_def modifyNpmInfoResponse_eq rewritePackument_headers)
  have d: "deleteCachingHeaders h ''etag'' = None \<and> deleteCachingHeaders h ''last-modified'' = None
           \<and> deleteCachingHeaders h ''cache-control'' = None" for h
    by (simp add: deleteCachingHeaders_def)
  show ?thesis
    unfolding handler_def [symmetric]
    using p n c d removedVersions_exempt by (intro exI [of _ r]) (auto simp del: not_None_eq)
qed

lemma lodash_packumentOf:
  "packumentOf example_JSON_parse lodash_body (Some lodash_headers) = Some (lodash_json, False)"
  by (simp add: packumentOf_def getHeaderValueAsString_def lodash_headers_def toLowerCase_def
      lowerChar_def example_JSON_parse_def lodash_body_def lodash_json_def
      isPackageExemptFromAgeCheck_def startsWith_def allowedBasePackages_def)

lemma lodash_removed:
  "removedVersions False example_Date (cutOff 24 1700000000000)
     [(''created'', ''2012-04-23T16:37:11.912Z''),
      (''modified'', ''2023-11-14T20:13:20.000Z''),
      (''4.17.20'', ''2020-08-13T16:53:54.152Z''),
      (''4.17.21'', ''2023-11-14T20:13:20.000Z'')] = [''4.17.21'']"
  by (simp add: removedVersions_def versionEntries_def example_Date_def isAfter_def cutOff_def)

lemma brightspace_packumentOf:
  "packumentOf example_JSON_parse brightspace_body (Some lodash_headers) = Some (brightspace_json, True)"
  by (simp add: packumentOf_def getHeaderValueAsString_def lodash_headers_def toLowerCase_def
      lowerChar_def example_JSON_parse_def lodash_body_def brightspace_body_def brightspace_json_def
      lodash_rewritten_body_def
      isPackageExemptFromAgeCheck_def startsWith_def allowedBasePackages_def)

lemma lodash_url: "isPackageInfoUrl ''https://registry.npmjs.org/lodash''"
  by (simp add: isPackageInfoUrl_def endsWith_def suffix_to_prefix)

lemma lodash_skip: "\<not> skipMinimumPackageAge (cli lodash_env)"
  by (simp add: skipMinimumPackageAge_def lodash_env_def cli_initial_def
      cliArguments_getSkipMinimumPackageAge_def defaultSkipMinimumPackageAge_def)

lemma lodash_time:
  "time lodash_json = Some [(''created'', ''2012-04-23T16:37:11.912Z''),
      (''modified'', ''2023-11-14T20:13:20.000Z''),
      (''4.17.20'', ''2020-08-13T16:53:54.152Z''),
      (''4.17.21'', ''2023-11-14T20:13:20.000Z'')]"
  by (simp add: lodash_json_def)

theorem C7_witness:
  "(\<exists>r. proxyResponse (\<lambda>b. None) (\<lambda>b. b)
          (fst (interceptor_handleRequest (buildNpmInterceptor lodash_env ''registry.npmjs.org'')
                  1700000000000 ''https://registry.npmjs.org/lodash'' proxy_initial))
          \<lparr> up_statusCode = 200, up_headers = lodash_headers, up_body = lodash_body \<rparr> = Inr r \<and>
        res_headers r ''etag'' = None \<and> res_headers r ''last-modified'' = None \<and>
        res_headers r ''cache-control'' = None \<and>
        res_headers r ''content-type'' = Some (Single ''application/json''))
   \<and> (\<exists>r. proxyResponse (\<lambda>b. None) (\<lambda>b. b)
          (fst (interceptor_handleRequest (buildNpmInterceptor lodash_env ''registry.npmjs.org'')
                  1700000000000 ''https://registry.npmjs.org/@brightspace-ui/core'' proxy_initial))
          \<lparr> up_statusCode = 200, up_headers = lodash_headers, up_body = brightspace_body \<rparr> = Inr r \<and>
        res_headers r = lodash_headers)"
proof -
  have g: "\<not> isGzip lodash_headers" by (simp add: isGzip_def lodash_headers_def)
  have u: "isPackageInfoUrl ''https://registry.npmjs.org/@brightspace-ui/core''"
    by (simp add: isPackageInfoUrl_def endsWith_def suffix_to_prefix)
  have e: "JSON_parse lodash_env = example_JSON_parse" "Date_parse lodash_env = example_Date"
    "getMinimumPackageAgeHours lodash_env = 24"
    by (simp_all add: lodash_env_def)
  have c: "deleteCachingHeaders lodash_headers ''content-type'' = Some (Single ''application/json'')"
    by (simp add: deleteCachingHeaders_def lodash_headers_def)
  have a: "\<exists>r. proxyResponse (\<lambda>b. None) (\<lambda>b. b)
          (fst (interceptor_handleRequest (buildNpmInterceptor lodash_env ''registry.npmjs.org'')
                  1700000000000 ''https://registry.npmjs.org/lodash'' proxy_initial))
          \<lparr> up_statusCode = 200, up_headers = lodash_headers, up_body = lodash_body \<rparr> = Inr r \<and>
        res_headers r ''etag'' = None \<and> res_headers r ''last-modified'' = None \<and>
        res_headers r ''cache-control'' = None \<and>
        res_headers r ''content-type'' = Some (Single ''application/json'')"
    using C7_caching_headers [OF lodash_skip lodash_url, of
        "\<lparr> up_statusCode = 200, up_headers = lodash_headers, up_body = lodash_body \<rparr>"
        "\<lambda>b. None" lodash_body "\<lambda>b. b" "''registry.npmjs.org''" 1700000000000 proxy_initial]
    apply (simp only: upstream_response.simps g if_False e)
    apply (elim exE conjE | simp)+
    apply (drule spec [of _ lodash_json], drule spec [of _ False])
    apply (simp add: lodash_packumentOf lodash_time lodash_removed c)
    apply (simp add: deleteCachingHeaders_def)
    done
  have b: "\<exists>r. proxyResponse (\<lambda>b. None) (\<lambda>b. b)
          (fst (interceptor_handleRequest (buildNpmInterceptor lodash_env ''registry.npmjs.org'')
                  1700000000000 ''https://registry.npmjs.org/@brightspace-ui/core'' proxy_initial))
          \<lparr> up_statusCode = 200, up_headers = lodash_headers, up_body = brightspace_body \<rparr> = Inr r \<and>
        res_headers r = lodash_headers"
    using C7_caching_headers [OF lodash_skip u, of
        "\<lparr> up_statusCode = 200, up_headers = lodash_headers, up_body = brightspace_body \<rparr>"
        "\<lambda>b. None" brightspace_body "\<lambda>b. b" "''registry.npmjs.org''" 1700000000000 proxy_initial]
    apply (simp only: upstream_response.simps g if_False e)
    apply (elim exE conjE | simp)+
    apply (drule spec [of _ brightspace_json], drule spec [of _ True])
    apply (simp add: brightspace_packumentOf brightspace_json_def)
    done
  from a b show ?thesis by simp
qed

lemma rewritePackument_time:
  assumes "time j = Some t"
  shows "time (fst (rewritePackument e D N now j h)) =
     Some (filter (\<lambda>(k, x). k \<notin> set (removedVersions e D (cutOff N now) t)) t)"
  using assms by (simp add: rewritePackument_eq Let_def fold_delete_time split: option.splits)

lemma rewritePackument_versions:
  assumes "time j = Some t" "versions j = Some vs"
  shows "versions (fst (rewritePackument e D N now j h)) =
     Some (filter (\<lambda>(k, x). k \<notin> set (removedVersions e D (cutOff N now) t)) vs)"
  using assms by (simp add: rewritePackument_eq Let_def fold_delete_versions split: option.splits)

lemma rewritePackument_name:
  "name (fst (rewritePackument e D N now j h)) = name j"
  by (simp add: rewritePackument_eq Let_def fold_delete_name split: option.splits)

lemma rewritePackument_json_headers:
  "fst (rewritePackument e D N now j h) = fst (rewritePackument e D N now j h')"
  by (simp add: rewritePackument_eq Let_def)

lemma map_of_filter_distinct:
  assumes "distinct (map fst xs)"
  shows "map_of (filter (\<lambda>(k, x). P x) xs) k =
           (case map_of xs k of None \<Rightarrow> None | Some x \<Rightarrow> if P x then Some x else None)"
  using assms
proof (induction xs)
  case Nil
  then show ?case by simp
next
  case (Cons a xs)
  obtain k' x' where a: "a = (k', x')" by (cases a)
  from Cons.prems have n: "k' \<notin> fst ` set xs" and d: "distinct (map fst xs)"
    by (simp_all add: a)
  from n have m: "map_of xs k' = None" by (simp add: map_of_eq_None_iff)
  show ?case
    using Cons.IH [OF d] m by (auto simp add: a split: option.splits)
qed

lemma truthy_latest_removed:
  assumes "distinct (map fst tags)" "truthy (map_of tags ''latest'')"
    and "\<not> truthy (map_of (filter (\<lambda>(k, x). x \<notin> set R) tags) ''latest'')"
  shows "''latest'' \<notin> fst ` set (filter (\<lambda>(k, x). x \<notin> set R) tags)"
    and "\<exists>l. map_of tags ''latest'' = Some l \<and> l \<in> set R"
  using assms
  by (auto simp add: map_of_filter_distinct truthy_def map_of_eq_None_iff [symmetric]
      simp del: map_of_eq_None_iff split: option.splits if_splits dest: eq_key_imp_eq_value)

lemma rewritePackument_dist_tags:
  assumes "time j = Some t" "dist_tags j = Some tags" "distinct (map fst tags)"
  shows "dist_tags (fst (rewritePackument e D N now j h)) =
     Some (let R = removedVersions e D (cutOff N now) t;
               tl = filter (\<lambda>(k, x). x \<notin> set R) tags
           in if truthy (map_of tags ''latest'') \<and> \<not> truthy (map_of tl ''latest'')
              then (case calculateLatestTag (filter (\<lambda>(k, x). k \<notin> set R) t) of
                      None \<Rightarrow> tl
                    | Some v \<Rightarrow> tl @ [(''latest'', v)])
              else tl)"
proof -
  define R where "R = removedVersions e D (cutOff N now) t"
  define tl where "tl = filter (\<lambda>(k, x). x \<notin> set R) tags"
  have a: "assign tl ''latest'' v = tl @ [(''latest'', v)]"
    if "truthy (map_of tags ''latest'')" "\<not> truthy (map_of tl ''latest'')" for v
    using truthy_latest_removed(1) [OF assms(3) that(1), of R] that(2)
    by (simp add: assign_def tl_def)
  show ?thesis
    using assms a
    by (simp add: rewritePackument_eq Let_def fold_delete_time fold_delete_dist_tags hasLatest_def
        R_def [symmetric] tl_def [symmetric] split: option.splits)
qed


lemma assign_fresh: "k \<notin> fst ` set obj \<Longrightarrow> assign obj k v = obj @ [(k, v)]"
  by (simp add: assign_def)

lemma fromEntries_fold_distinct:
  "distinct (map fst (acc @ es)) \<Longrightarrow> fold (\<lambda>(k, v) obj. assign obj k v) es acc = acc @ es"
proof (induction es arbitrary: acc)
  case Nil
  then show ?case by simp
next
  case (Cons a es)
  obtain k v where a: "a = (k, v)" by (cases a)
  from Cons.prems have f: "k \<notin> fst ` set acc" by (auto simp add: a)
  from Cons.prems have d: "distinct (map fst ((acc @ [(k, v)]) @ es))" by (simp add: a)
  show ?case
    using Cons.IH [OF d] by (simp add: a assign_fresh [OF f])
qed

lemma fromEntries_distinct: "distinct (map fst es) \<Longrightarrow> fromEntries es = es"
  using fromEntries_fold_distinct [of "[]" es] by (simp add: fromEntries_def)

lemma getMostRecentTag_loop_result:
  assumes "cur = None \<longrightarrow> cd = None \<and> A = {}"
    and "\<forall>v. cur = Some v \<longrightarrow> (\<exists>d. cd = Some d \<and> (v, d) \<in> A \<and> (\<forall>(v', d') \<in> A. d' \<le> d))"
  shows "case getMostRecentTag_loop es cur cd of
           None \<Rightarrow> es = [] \<and> cur = None
         | Some v \<Rightarrow> \<exists>d. (v, d) \<in> A \<union> set es \<and> (\<forall>(v', d') \<in> A \<union> set es. d' \<le> d)"
  using assms
proof (induction es arbitrary: cur cd A)
  case Nil
  then show ?case by (cases cur) auto
next
  case (Cons a es)
  obtain v ts where a: "a = (v, ts)" by (cases a)
  show ?case
  proof (cases "case cd of None \<Rightarrow> True | Some d \<Rightarrow> d = [] \<or> d < ts")
    case True
    have 1: "Some v = None \<longrightarrow> Some ts = None \<and> insert (v, ts) A = {}" by simp
    have 2: "\<forall>w. Some v = Some w \<longrightarrow>
               (\<exists>d. Some ts = Some d \<and> (w, d) \<in> insert (v, ts) A \<and>
                    (\<forall>(v', d') \<in> insert (v, ts) A. d' \<le> d))"
    proof (cases cur)
      case None
      with Cons.prems(1) show ?thesis by simp
    next
      case (Some w)
      with Cons.prems(2) obtain d where d: "cd = Some d" "\<forall>(v', d') \<in> A. d' \<le> d" by blast
      from True d(1) have "d \<le> ts" by auto
      with d(2) show ?thesis by (auto intro: order_trans)
    qed
    from Cons.IH [OF 1 2] True show ?thesis
      by (simp add: a split: option.splits)
  next
    case False
    then obtain d where d: "cd = Some d" "d \<noteq> []" "\<not> d < ts" by (auto split: option.splits)
    with Cons.prems(1) obtain w where w: "cur = Some w" by (cases cur) auto
    with Cons.prems(2) d(1) have m: "(w, d) \<in> A" "\<forall>(v', d') \<in> A. d' \<le> d" by auto
    have 1: "cur = None \<longrightarrow> cd = None \<and> insert (v, ts) A = {}" using w by simp
    have 2: "\<forall>u. cur = Some u \<longrightarrow>
               (\<exists>d. cd = Some d \<and> (u, d) \<in> insert (v, ts) A \<and>
                    (\<forall>(v', d') \<in> insert (v, ts) A. d' \<le> d))"
      using w d m by auto
    from Cons.IH [OF 1 2] False w show ?thesis
      by (simp add: a d split: option.splits)
  qed
qed

lemma getMostRecentTag_result:
  "case getMostRecentTag es of
     None \<Rightarrow> es = []
   | Some v \<Rightarrow> \<exists>d. (v, d) \<in> set es \<and> (\<forall>(v', d') \<in> set es. d' \<le> d)"
  using getMostRecentTag_loop_result [of None None "{}" es]
  by (simp add: getMostRecentTag_def split: option.splits)


lemma calculateLatestTag_result:
  assumes "distinct (map fst ts)" and "[] \<notin> fst ` set ts"
    and "F = filter (\<lambda>(version, _). \<not> js_includes version ''-'') (versionEntries ts)"
    and "P = filter (\<lambda>(version, _). js_includes version ''-'') (versionEntries ts)"
  shows "(F \<noteq> [] \<longrightarrow>
            (\<exists>v d. calculateLatestTag ts = Some v \<and> (v, d) \<in> set F \<and> (\<forall>(v', d') \<in> set F. d' \<le> d)))
       \<and> (F = [] \<and> P \<noteq> [] \<longrightarrow>
            (\<exists>v d. calculateLatestTag ts = Some v \<and> (v, d) \<in> set P \<and> (\<forall>(v', d') \<in> set P. d' \<le> d)))
       \<and> (versionEntries ts = [] \<longrightarrow> calculateLatestTag ts = None)"
proof -
  have dv: "distinct (map fst (versionEntries ts))"
    unfolding versionEntries_def using assms(1) by (rule distinct_map_filter)
  have dF: "distinct (map fst F)" unfolding assms(3) using dv by (rule distinct_map_filter)
  have dP: "distinct (map fst P)" unfolding assms(4) using dv by (rule distinct_map_filter)
  have c: "calculateLatestTag ts =
             (if truthy (getMostRecentTag F) then getMostRecentTag F else getMostRecentTag P)"
    by (simp add: calculateLatestTag_def Let_def versionEntries_def [symmetric]
        assms(3) [symmetric] assms(4) [symmetric] fromEntries_distinct [OF dF]
        fromEntries_distinct [OF dP])
  have sub: "set F \<subseteq> set ts" by (auto simp add: assms(3) versionEntries_def)
  have 1: "\<exists>v d. calculateLatestTag ts = Some v \<and> (v, d) \<in> set F \<and> (\<forall>(v', d') \<in> set F. d' \<le> d)"
    if "F \<noteq> []"
  proof -
    from getMostRecentTag_result [of F] that obtain v d
      where v: "getMostRecentTag F = Some v" "(v, d) \<in> set F" "\<forall>(v', d') \<in> set F. d' \<le> d"
      by (auto split: option.splits)
    from v(2) sub assms(2) have "v \<noteq> []" by force
    with v show ?thesis by (auto simp add: c truthy_def)
  qed
  have 2: "\<exists>v d. calculateLatestTag ts = Some v \<and> (v, d) \<in> set P \<and> (\<forall>(v', d') \<in> set P. d' \<le> d)"
    if "F = []" "P \<noteq> []"
  proof -
    from that(1) have n: "getMostRecentTag F = None" by (simp add: getMostRecentTag_def)
    from getMostRecentTag_result [of P] that(2) obtain v d
      where v: "getMostRecentTag P = Some v" "(v, d) \<in> set P" "\<forall>(v', d') \<in> set P. d' \<le> d"
      by (auto split: option.splits)
    then show ?thesis by (auto simp add: c n truthy_def)
  qed
  have 3: "calculateLatestTag ts = None" if "versionEntries ts = []"
    using that by (simp add: c assms(3,4) getMostRecentTag_def truthy_def)
  from 1 2 3 show ?thesis by blast
qed

lemma modifyNpmInfoResponse_rewrites:
  assumes "packumentOf P body headers = Some (j, e)"
    and "rewritePackument e D N now j headers = (j', h')"
  shows "modifyNpmInfoResponse P S D N now body headers = (S j', h')"
  using assms by (simp add: modifyNpmInfoResponse_eq)

lemma removedVersions_iff:
  "k \<in> set (removedVersions e D c t) \<longleftrightarrow>
     (\<not> e \<and> k \<noteq> ''created'' \<and> k \<noteq> ''modified'' \<and> (\<exists>ts. (k, ts) \<in> set t \<and> isAfter (D ts) c))"
  by (auto simp add: removedVersions_def versionEntries_def image_iff)

lemma calculateLatestTag_key:
  assumes "distinct (map fst ts)" "calculateLatestTag ts = Some v"
  shows "v \<in> fst ` set ts"
proof -
  have dv: "distinct (map fst (versionEntries ts))"
    unfolding versionEntries_def using assms(1) by (rule distinct_map_filter)
  let ?F = "filter (\<lambda>(version, _). \<not> js_includes version ''-'') (versionEntries ts)"
  let ?P = "filter (\<lambda>(version, _). js_includes version ''-'') (versionEntries ts)"
  have dF: "distinct (map fst ?F)" using dv by (rule distinct_map_filter)
  have dP: "distinct (map fst ?P)" using dv by (rule distinct_map_filter)
  have c: "calculateLatestTag ts =
             (if truthy (getMostRecentTag ?F) then getMostRecentTag ?F else getMostRecentTag ?P)"
    by (simp add: calculateLatestTag_def Let_def versionEntries_def [symmetric]
        fromEntries_distinct [OF dF] fromEntries_distinct [OF dP])
  from assms(2) c have "getMostRecentTag ?F = Some v \<or> getMostRecentTag ?P = Some v"
    by (auto split: if_splits)
  then show ?thesis
    using getMostRecentTag_result [of ?F] getMostRecentTag_result [of ?P]
    by (force simp add: versionEntries_def)
qed

text \<open>
  C10. Where the rewriter rewrites a packument \<open>j\<close> into \<open>j'\<close>: an entry of \<open>versions\<close>
  whose key has no entry in \<open>time\<close> is still in \<open>versions\<close> of \<open>j'\<close>; an entry of
  \<open>versions\<close> or of \<open>time\<close> is gone exactly when its key is a removed version, and a
  dist-tag is gone exactly when it points at one; and the removed versions are exactly
  the keys of \<open>time\<close>, other than \<open>created\<close> and \<open>modified\<close>, with a date after the
  cutoff, in a package that is not exempt.
\<close>

theorem C10_only_timed_versions_removed:
  assumes "packumentOf parse body headers = Some (j, e)"
    and "time j = Some t" and "versions j = Some vs" and "dist_tags j = Some tags"
    and "distinct (map fst t)" and "distinct (map fst tags)"
    and "rewritePackument e Date N now j headers = (j', h')"
  shows "modifyNpmInfoResponse parse stringify Date N now body headers
           = (stringify j', h')
       \<and> (\<exists>t' vs' tags'.
            time j' = Some t' \<and> versions j' = Some vs' \<and> dist_tags j' = Some tags' \<and>
            (\<forall>k x. (k, x) \<in> set vs \<and> k \<notin> fst ` set t \<longrightarrow> (k, x) \<in> set vs') \<and>
            (\<forall>k x. (k, x) \<in> set vs \<longrightarrow>
               ((k, x) \<notin> set vs' \<longleftrightarrow> k \<in> set (removedVersions e Date (cutOff N now) t))) \<and>
            (\<forall>k ts. (k, ts) \<in> set t \<longrightarrow>
               ((k, ts) \<notin> set t' \<longleftrightarrow> k \<in> set (removedVersions e Date (cutOff N now) t))) \<and>
            (\<forall>tag x. (tag, x) \<in> set tags \<longrightarrow>
               ((tag, x) \<notin> set tags' \<longleftrightarrow> x \<in> set (removedVersions e Date (cutOff N now) t))))
       \<and> (\<forall>k. k \<in> set (removedVersions e Date (cutOff N now) t) \<longleftrightarrow>
              (\<not> e \<and> k \<noteq> ''created'' \<and> k \<noteq> ''modified'' \<and>
               (\<exists>ts. (k, ts) \<in> set t \<and> isAfter (Date ts) (cutOff N now))))"
proof -
  define R where "R = removedVersions e Date (cutOff N now) t"
  define t' where "t' = filter (\<lambda>(k, x). k \<notin> set R) t"
  define vs' where "vs' = filter (\<lambda>(k, x). k \<notin> set R) vs"
  define tl where "tl = filter (\<lambda>(k, x). x \<notin> set R) tags"
  from assms(7) have j': "j' = fst (rewritePackument e Date N now j headers)" by simp
  have 1: "time j' = Some t'"
    unfolding j' t'_def R_def by (rule rewritePackument_time [OF assms(2)])
  have 2: "versions j' = Some vs'"
    unfolding j' vs'_def R_def by (rule rewritePackument_versions [OF assms(2,3)])
  have R_time: "k \<in> fst ` set t" if "k \<in> set R" for k
    using that unfolding R_def removedVersions_iff by force
  have d': "distinct (map fst t')" unfolding t'_def using assms(5) by (rule distinct_map_filter)
  obtain tags' where 3: "dist_tags j' = Some tags'"
    and 4: "tags' = tl \<or> (\<exists>v. tags' = tl @ [(''latest'', v)] \<and> v \<in> fst ` set t' \<and>
                              truthy (map_of tags ''latest'') \<and> \<not> truthy (map_of tl ''latest''))"
    using rewritePackument_dist_tags [OF assms(2,4,6), of e Date N now headers]
      calculateLatestTag_key [OF d']
    unfolding j' [symmetric] R_def [symmetric] Let_def tl_def [symmetric] t'_def [symmetric]
    by (auto split: option.splits if_splits)
  have 5: "((tag, x) \<notin> set tags' \<longleftrightarrow> x \<in> set R)" if m: "(tag, x) \<in> set tags" for tag x
    using 4
  proof
    assume "tags' = tl"
    with m show ?thesis by (auto simp add: tl_def)
  next
    assume "\<exists>v. tags' = tl @ [(''latest'', v)] \<and> v \<in> fst ` set t' \<and>
                 truthy (map_of tags ''latest'') \<and> \<not> truthy (map_of tl ''latest'')"
    then obtain v where v: "tags' = tl @ [(''latest'', v)]" "v \<in> fst ` set t'"
      "truthy (map_of tags ''latest'')" "\<not> truthy (map_of tl ''latest'')" by blast
    from truthy_latest_removed(2) [OF assms(6) v(3)] v(4) obtain l
      where l: "map_of tags ''latest'' = Some l" "l \<in> set R" by (auto simp add: tl_def)
    from v(2) have "v \<notin> set R" by (auto simp add: t'_def)
    with l have "(''latest'', v) \<notin> set tags"
      using assms(6) by (auto dest: map_of_SomeD eq_key_imp_eq_value)
    with m have "(tag, x) \<noteq> (''latest'', v)" by auto
    with m show ?thesis by (auto simp add: v(1) tl_def)
  qed
  have 6: "(k, x) \<in> set vs'" if "(k, x) \<in> set vs" "k \<notin> fst ` set t" for k x
    using that R_time by (auto simp add: vs'_def)
  have 7: "((k, x) \<notin> set vs' \<longleftrightarrow> k \<in> set R)" if "(k, x) \<in> set vs" for k x
    using that by (auto simp add: vs'_def)
  have 8: "((k, ts) \<notin> set t' \<longleftrightarrow> k \<in> set R)" if "(k, ts) \<in> set t" for k ts
    using that by (auto simp add: t'_def)
  have 9: "\<forall>k. k \<in> set R \<longleftrightarrow>
              (\<not> e \<and> k \<noteq> ''created'' \<and> k \<noteq> ''modified'' \<and>
               (\<exists>ts. (k, ts) \<in> set t \<and> isAfter (Date ts) (cutOff N now)))"
    unfolding R_def by (simp only: removedVersions_iff) simp
  have 10: "\<exists>t' vs' tags'.
            time j' = Some t' \<and> versions j' = Some vs' \<and> dist_tags j' = Some tags' \<and>
            (\<forall>k x. (k, x) \<in> set vs \<and> k \<notin> fst ` set t \<longrightarrow> (k, x) \<in> set vs') \<and>
            (\<forall>k x. (k, x) \<in> set vs \<longrightarrow> ((k, x) \<notin> set vs' \<longleftrightarrow> k \<in> set R)) \<and>
            (\<forall>k ts. (k, ts) \<in> set t \<longrightarrow> ((k, ts) \<notin> set t' \<longleftrightarrow> k \<in> set R)) \<and>
            (\<forall>tag x. (tag, x) \<in> set tags \<longrightarrow> ((tag, x) \<notin> set tags' \<longleftrightarrow> x \<in> set R))"
    apply (rule exI [of _ t'], rule exI [of _ vs'], rule exI [of _ tags'])
    apply (intro conjI allI impI)
    apply (rule 1, rule 2, rule 3)
    apply (erule conjE, erule (1) 6)
    apply (erule 7)
    apply (erule 8)
    apply (erule 5)
    done
  show ?thesis
    unfolding R_def [symmetric]
    apply (intro conjI)
    apply (rule modifyNpmInfoResponse_rewrites [OF assms(1,7)])
    apply (rule 10)
    apply (rule 9)
    done
qed


lemma beta_packumentOf:
  "packumentOf example_JSON_parse beta_body (Some lodash_headers) = Some (beta_json, False)"
  by (simp add: packumentOf_def getHeaderValueAsString_def lodash_headers_def toLowerCase_def
      lowerChar_def example_JSON_parse_def lodash_body_def brightspace_body_def beta_body_def
      beta_json_def lodash_rewritten_body_def
      isPackageExemptFromAgeCheck_def startsWith_def allowedBasePackages_def)

lemma beta_removed:
  "removedVersions False example_Date (cutOff 24 1700000000000)
     [(''created'', ''2012-04-23T16:37:11.912Z''),
      (''modified'', ''2023-11-14T20:13:20.000Z''),
      (''1.0.0-beta.1'', ''2012-04-23T16:37:11.912Z''),
      (''1.0.0-beta.2'', ''2020-08-13T16:53:54.152Z''),
      (''1.0.0'', ''2023-11-14T20:13:20.000Z'')] = [''1.0.0'']"
  by (simp add: removedVersions_def versionEntries_def example_Date_def isAfter_def cutOff_def)

theorem C10_witness:
  "\<exists>j' h'. modifyNpmInfoResponse example_JSON_parse example_JSON_stringify example_Date 24
             1700000000000 beta_body (Some lodash_headers) = (example_JSON_stringify j', h') \<and>
          (\<exists>vs' t'. versions j' = Some vs' \<and> time j' = Some t' \<and>
             (''0.9.0'', ()) \<in> set vs' \<and> (''1.0.0'', ()) \<notin> set vs' \<and>
             (''1.0.0'', ''2023-11-14T20:13:20.000Z'') \<notin> set t' \<and>
             (''1.0.0-beta.2'', ''2020-08-13T16:53:54.152Z'') \<in> set t')"
proof -
  define j' where
    "j' = fst (rewritePackument False example_Date 24 1700000000000 beta_json (Some lodash_headers))"
  define h' where
    "h' = snd (rewritePackument False example_Date 24 1700000000000 beta_json (Some lodash_headers))"
  have r: "rewritePackument False example_Date 24 1700000000000 beta_json (Some lodash_headers) = (j', h')"
    by (simp add: j'_def h'_def)
  have t: "time beta_json = Some [(''created'', ''2012-04-23T16:37:11.912Z''),
      (''modified'', ''2023-11-14T20:13:20.000Z''),
      (''1.0.0-beta.1'', ''2012-04-23T16:37:11.912Z''),
      (''1.0.0-beta.2'', ''2020-08-13T16:53:54.152Z''),
      (''1.0.0'', ''2023-11-14T20:13:20.000Z'')]"
    and v: "versions beta_json = Some [(''0.9.0'', ()), (''1.0.0-beta.1'', ()),
      (''1.0.0-beta.2'', ()), (''1.0.0'', ())]"
    and g: "dist_tags beta_json = Some [(''latest'', ''1.0.0''), (''beta'', ''1.0.0-beta.2'')]"
    by (simp_all add: beta_json_def)
  have d1: "distinct (map fst [(''created'', ''2012-04-23T16:37:11.912Z''),
      (''modified'', ''2023-11-14T20:13:20.000Z''),
      (''1.0.0-beta.1'', ''2012-04-23T16:37:11.912Z''),
      (''1.0.0-beta.2'', ''2020-08-13T16:53:54.152Z''),
      (''1.0.0'', ''2023-11-14T20:13:20.000Z'')])"
    and d2: "distinct (map fst [(''latest'', ''1.0.0''), (''beta'', ''1.0.0-beta.2'')])"
    by simp_all
  show ?thesis
    using C10_only_timed_versions_removed [OF beta_packumentOf t v g d1 d2 r,
        where stringify = example_JSON_stringify, unfolded beta_removed]
    apply (elim conjE exE)
    subgoal premises p for t' vs' tags'
    proof -
      have 1: "(''0.9.0'', ()) \<in> set vs'"
        using p(6) [rule_format, of "''0.9.0''" "()"] by simp
      have 2: "(''1.0.0'', ()) \<notin> set vs'"
        using p(7) [rule_format, of "''1.0.0''" "()"] by simp
      have 3: "(''1.0.0'', ''2023-11-14T20:13:20.000Z'') \<notin> set t'"
        using p(8) [rule_format, of "''1.0.0''" "''2023-11-14T20:13:20.000Z''"] by simp
      have 4: "(''1.0.0-beta.2'', ''2020-08-13T16:53:54.152Z'') \<in> set t'"
        using p(8) [rule_format, of "''1.0.0-beta.2''" "''2020-08-13T16:53:54.152Z''"] by simp
      from p(1) p(4) p(3) 1 2 3 4 show ?thesis
        by (intro exI [of _ j'] exI [of _ h'] exI [of _ vs'] exI [of _ t'] conjI)
    qed
    done
qed

lemma js_includes_char: "js_includes s [c] \<longleftrightarrow> c \<in> set s"
  by (induction s) auto

lemma string_max_is_date_max:
  assumes "(v, d) \<in> set (E :: string js_dict)" and "\<forall>(v', d') \<in> set E. d' \<le> d"
    and "\<forall>(a, x) \<in> set E. \<forall>(b, y) \<in> set E.
           x \<le> y \<longrightarrow> (\<exists>m n. Date x = Some m \<and> Date y = Some n \<and> m \<le> n)"
  shows "\<exists>n. Date d = Some n \<and> (\<forall>(v', d') \<in> set E. \<exists>m. Date d' = Some m \<and> m \<le> (n::int))"
proof -
  have k: "\<exists>m n. Date x = Some m \<and> Date y = Some n \<and> m \<le> n"
    if "(a, x) \<in> set E" "(b, y) \<in> set E" "x \<le> y" for a x b y
    using assms(3) that by blast
  from k [OF assms(1) assms(1)] obtain n where n: "Date d = Some n" by auto
  have "\<exists>m. Date d' = Some m \<and> m \<le> n" if "(v', d') \<in> set E" for v' d'
  proof -
    from that assms(2) have "d' \<le> d" by auto
    from k [OF that assms(1) this] n show ?thesis by auto
  qed
  with n show ?thesis by auto
qed

text \<open>
  C4 (as amended). Where the packument had a \<open>latest\<close> tag and the loop removed the
  version it points at: among the entries of \<open>time\<close> that survive, other than \<open>created\<close>
  and \<open>modified\<close>, \<open>latest\<close> in the rewritten document is a version with no \<open>-\<close> whose
  timestamp is greatest among those with no \<open>-\<close>; if there is none, a version with \<open>-\<close>
  whose timestamp is greatest among those; and if no entry survives, the document has no
  \<open>latest\<close>. Greatest is in the order the source compares timestamps in, the order of
  strings by code unit. Where that order agrees with the order of the dates on the
  entries compared (as it does for timestamps of one fixed-width UTC format, the
  registry's), the version chosen has the latest date among them. The keys of an object
  are distinct, and no version is the empty string.
\<close>

theorem C4_latest_recomputed:
  assumes "packumentOf parse body headers = Some (j, e)"
    and "time j = Some t" and "dist_tags j = Some tags"
    and "distinct (map fst t)" and "distinct (map fst tags)" and "[] \<notin> fst ` set t"
    and "map_of tags ''latest'' = Some l" and "l \<noteq> []"
    and "l \<in> set (removedVersions e Date (cutOff N now) t)"
    and "rewritePackument e Date N now j headers = (j', h')"
  shows "modifyNpmInfoResponse parse stringify Date N now body headers = (stringify j', h')
       \<and> (\<exists>t' tags' F P.
            time j' = Some t' \<and> dist_tags j' = Some tags' \<and>
            t' = filter (\<lambda>(k, ts). k \<notin> set (removedVersions e Date (cutOff N now) t)) t \<and>
            F = filter (\<lambda>(version, ts). CHR ''-'' \<notin> set version) (versionEntries t') \<and>
            P = filter (\<lambda>(version, ts). CHR ''-'' \<in> set version) (versionEntries t') \<and>
            (F \<noteq> [] \<longrightarrow>
               (\<exists>v d. map_of tags' ''latest'' = Some v \<and> (v, d) \<in> set F \<and>
                      (\<forall>(v', d') \<in> set F. d' \<le> d) \<and>
                      ((\<forall>(a, x) \<in> set F. \<forall>(b, y) \<in> set F.
                          x \<le> y \<longrightarrow> (\<exists>m n. Date x = Some m \<and> Date y = Some n \<and> m \<le> n)) \<longrightarrow>
                       (\<exists>n. Date d = Some n \<and>
                            (\<forall>(v', d') \<in> set F. \<exists>m. Date d' = Some m \<and> m \<le> n))))) \<and>
            (F = [] \<and> P \<noteq> [] \<longrightarrow>
               (\<exists>v d. map_of tags' ''latest'' = Some v \<and> (v, d) \<in> set P \<and>
                      (\<forall>(v', d') \<in> set P. d' \<le> d) \<and>
                      ((\<forall>(a, x) \<in> set P. \<forall>(b, y) \<in> set P.
                          x \<le> y \<longrightarrow> (\<exists>m n. Date x = Some m \<and> Date y = Some n \<and> m \<le> n)) \<longrightarrow>
                       (\<exists>n. Date d = Some n \<and>
                            (\<forall>(v', d') \<in> set P. \<exists>m. Date d' = Some m \<and> m \<le> n))))) \<and>
            (versionEntries t' = [] \<longrightarrow> map_of tags' ''latest'' = None))"
proof -
  define R where "R = removedVersions e Date (cutOff N now) t"
  define t' where "t' = filter (\<lambda>(k, x). k \<notin> set R) t"
  define tl where "tl = filter (\<lambda>(k, x). x \<notin> set R) tags"
  define F where "F = filter (\<lambda>(version, ts). CHR ''-'' \<notin> set version) (versionEntries t')"
  define P where "P = filter (\<lambda>(version, ts). CHR ''-'' \<in> set version) (versionEntries t')"
  from assms(10) have j': "j' = fst (rewritePackument e Date N now j headers)" by simp
  have 1: "time j' = Some t'"
    unfolding j' t'_def R_def by (rule rewritePackument_time [OF assms(2)])
  have d': "distinct (map fst t')" unfolding t'_def using assms(4) by (rule distinct_map_filter)
  have e': "[] \<notin> fst ` set t'" using assms(6) by (auto simp add: t'_def)
  have n: "map_of tl ''latest'' = None"
    using assms(7,9) by (simp add: tl_def map_of_filter_distinct [OF assms(5)] R_def)
  have tr: "truthy (map_of tags ''latest'')" "\<not> truthy (map_of tl ''latest'')"
    using assms(7,8) n by (simp_all add: truthy_def)
  define tags' where
    "tags' = (case calculateLatestTag t' of None \<Rightarrow> tl | Some v \<Rightarrow> tl @ [(''latest'', v)])"
  have 2: "dist_tags j' = Some tags'"
    using rewritePackument_dist_tags [OF assms(2,3,5), of e Date N now headers] tr
    unfolding j' [symmetric] R_def [symmetric] Let_def tl_def [symmetric] t'_def [symmetric]
    by (simp add: tags'_def)
  have m: "map_of tags' ''latest'' = calculateLatestTag t'"
    using n by (simp add: tags'_def map_add_def split: option.splits)
  have F: "F = filter (\<lambda>(version, _). \<not> js_includes version ''-'') (versionEntries t')"
    and P: "P = filter (\<lambda>(version, _). js_includes version ''-'') (versionEntries t')"
    by (simp_all add: F_def P_def js_includes_char)
  note c = calculateLatestTag_result [OF d' e' F P, folded m]
  have dates: "\<exists>v d. map_of tags' ''latest'' = Some v \<and> (v, d) \<in> set E \<and>
                 (\<forall>(v', d') \<in> set E. d' \<le> d) \<and>
                 ((\<forall>(a, x) \<in> set E. \<forall>(b, y) \<in> set E.
                     x \<le> y \<longrightarrow> (\<exists>m n. Date x = Some m \<and> Date y = Some n \<and> m \<le> n)) \<longrightarrow>
                  (\<exists>n. Date d = Some n \<and>
                       (\<forall>(v', d') \<in> set E. \<exists>m. Date d' = Some m \<and> m \<le> n)))"
    if "\<exists>v d. map_of tags' ''latest'' = Some v \<and> (v, d) \<in> set E \<and> (\<forall>(v', d') \<in> set E. d' \<le> d)"
    for E
  proof -
    from that obtain v d where vd: "map_of tags' ''latest'' = Some v" "(v, d) \<in> set E"
      "\<forall>(v', d') \<in> set E. d' \<le> d" by blast
    have "(\<forall>(a, x) \<in> set E. \<forall>(b, y) \<in> set E.
             x \<le> y \<longrightarrow> (\<exists>m n. Date x = Some m \<and> Date y = Some n \<and> m \<le> n)) \<longrightarrow>
          (\<exists>n. Date d = Some n \<and> (\<forall>(v', d') \<in> set E. \<exists>m. Date d' = Some m \<and> m \<le> n))"
      by (intro impI string_max_is_date_max [OF vd(2,3)])
    with vd show ?thesis by (intro exI [of _ v] exI [of _ d] conjI)
  qed
  have 3: "\<exists>t' tags' F P.
            time j' = Some t' \<and> dist_tags j' = Some tags' \<and>
            t' = filter (\<lambda>(k, ts). k \<notin> set R) t \<and>
            F = filter (\<lambda>(version, ts). CHR ''-'' \<notin> set version) (versionEntries t') \<and>
            P = filter (\<lambda>(version, ts). CHR ''-'' \<in> set version) (versionEntries t') \<and>
            (F \<noteq> [] \<longrightarrow>
               (\<exists>v d. map_of tags' ''latest'' = Some v \<and> (v, d) \<in> set F \<and>
                      (\<forall>(v', d') \<in> set F. d' \<le> d) \<and>
                      ((\<forall>(a, x) \<in> set F. \<forall>(b, y) \<in> set F.
                          x \<le> y \<longrightarrow> (\<exists>m n. Date x = Some m \<and> Date y = Some n \<and> m \<le> n)) \<longrightarrow>
                       (\<exists>n. Date d = Some n \<and>
                            (\<forall>(v', d') \<in> set F. \<exists>m. Date d' = Some m \<and> m \<le> n))))) \<and>
            (F = [] \<and> P \<noteq> [] \<longrightarrow>
               (\<exists>v d. map_of tags' ''latest'' = Some v \<and> (v, d) \<in> set P \<and>
                      (\<forall>(v', d') \<in> set P. d' \<le> d) \<and>
                      ((\<forall>(a, x) \<in> set P. \<forall>(b, y) \<in> set P.
                          x \<le> y \<longrightarrow> (\<exists>m n. Date x = Some m \<and> Date y = Some n \<and> m \<le> n)) \<longrightarrow>
                       (\<exists>n. Date d = Some n \<and>
                            (\<forall>(v', d') \<in> set P. \<exists>m. Date d' = Some m \<and> m \<le> n))))) \<and>
            (versionEntries t' = [] \<longrightarrow> map_of tags' ''latest'' = None)"
    apply (rule exI [of _ t'], rule exI [of _ tags'], rule exI [of _ F], rule exI [of _ P])
    apply (intro conjI)
    apply (rule 1, rule 2, rule t'_def, rule F_def, rule P_def)
    apply (rule impI, rule dates, erule c [THEN conjunct1, THEN mp])
    apply (rule impI, rule dates, erule c [THEN conjunct2, THEN conjunct1, THEN mp])
    apply (rule c [THEN conjunct2, THEN conjunct2])
    done
  show ?thesis
    unfolding R_def [symmetric]
    apply (rule conjI)
    apply (rule modifyNpmInfoResponse_rewrites [OF assms(1,10)])
    apply (rule 3)
    done
qed

lemma young_packumentOf:
  "packumentOf example_JSON_parse young_body (Some lodash_headers) = Some (young_json, False)"
  by (simp add: packumentOf_def getHeaderValueAsString_def lodash_headers_def toLowerCase_def
      lowerChar_def example_JSON_parse_def lodash_body_def brightspace_body_def beta_body_def
      young_body_def young_json_def lodash_rewritten_body_def
      isPackageExemptFromAgeCheck_def startsWith_def allowedBasePackages_def)

lemma young_removed:
  "removedVersions False example_Date (cutOff 24 1700000000000)
     [(''created'', ''2023-11-14T20:13:20.000Z''),
      (''modified'', ''2023-11-14T20:13:20.000Z''),
      (''1.0.0'', ''2023-11-14T20:13:20.000Z'')] = [''1.0.0'']"
  by (simp add: removedVersions_def versionEntries_def example_Date_def isAfter_def cutOff_def)

lemma mixed_packumentOf:
  "packumentOf example_JSON_parse mixed_body (Some lodash_headers) = Some (mixed_json, False)"
  by (simp add: packumentOf_def getHeaderValueAsString_def lodash_headers_def toLowerCase_def
      lowerChar_def example_JSON_parse_def lodash_body_def brightspace_body_def beta_body_def
      young_body_def mixed_body_def mixed_json_def lodash_rewritten_body_def
      isPackageExemptFromAgeCheck_def startsWith_def allowedBasePackages_def)

lemma mixed_removed:
  "removedVersions False example_Date (cutOff 24 1700000000000)
     [(''created'', ''2012-04-23T16:37:11.912Z''),
      (''modified'', ''2023-11-14T20:13:20.000Z''),
      (''1.0.0'', ''2020-01-01T00:00:00Z''),
      (''1.1.0'', ''2020-01-01T00:00:00.500Z''),
      (''2.0.0'', ''2023-11-14T20:13:20.000Z'')] = [''2.0.0'']"
  by (simp add: removedVersions_def versionEntries_def example_Date_def isAfter_def cutOff_def)

lemma lodash_rewritePackument:
  "fst (rewritePackument False example_Date 24 1700000000000 lodash_json h) = lodash_rewritten"
  by (simp add: rewritePackument_eq Let_def lodash_time lodash_removed lodash_json_def
      lodash_rewritten_def deleteVersionFromJson_def delete_key_def hasLatest_def truthy_def
      calculateLatestTag_def getMostRecentTag_def fromEntries_def assign_def)

lemma beta_rewritePackument:
  "fst (rewritePackument False example_Date 24 1700000000000 beta_json h) = beta_rewritten"
  by (simp add: rewritePackument_eq Let_def beta_removed beta_json_def
      beta_rewritten_def deleteVersionFromJson_def delete_key_def hasLatest_def truthy_def
      calculateLatestTag_def getMostRecentTag_def fromEntries_def assign_def)

lemma young_rewritePackument:
  "fst (rewritePackument False example_Date 24 1700000000000 young_json h) = young_rewritten"
  by (simp add: rewritePackument_eq Let_def young_removed young_json_def
      young_rewritten_def deleteVersionFromJson_def delete_key_def hasLatest_def truthy_def
      calculateLatestTag_def getMostRecentTag_def fromEntries_def assign_def)

lemma mixed_rewritePackument:
  "fst (rewritePackument False example_Date 24 1700000000000 mixed_json h) = mixed_rewritten"
  by (simp add: rewritePackument_eq Let_def mixed_removed mixed_json_def
      mixed_rewritten_def deleteVersionFromJson_def delete_key_def hasLatest_def truthy_def
      calculateLatestTag_def getMostRecentTag_def fromEntries_def assign_def)

lemma stringify_rewritten:
  "example_JSON_stringify lodash_rewritten = lodash_rewritten_body"
  "example_JSON_stringify beta_rewritten = beta_rewritten_body"
  "example_JSON_stringify young_rewritten = young_rewritten_body"
  "example_JSON_stringify mixed_rewritten = mixed_rewritten_body"
  by (simp_all add: example_JSON_stringify_def beta_rewritten_def young_rewritten_def
      mixed_rewritten_def lodash_json_def lodash_rewritten_def brightspace_json_def)

theorem C4_witness:
  "(\<exists>tags'. fst (modifyNpmInfoResponse example_JSON_parse example_JSON_stringify example_Date 24
                  1700000000000 lodash_body (Some lodash_headers)) = lodash_rewritten_body \<and>
          dist_tags (fst (rewritePackument False example_Date 24 1700000000000 lodash_json
                            (Some lodash_headers))) = Some tags' \<and>
          map_of tags' ''latest'' = Some ''4.17.20'')
   \<and> (\<exists>tags' n m. fst (modifyNpmInfoResponse example_JSON_parse example_JSON_stringify example_Date 24
                  1700000000000 beta_body (Some lodash_headers)) = beta_rewritten_body \<and>
          dist_tags (fst (rewritePackument False example_Date 24 1700000000000 beta_json
                            (Some lodash_headers))) = Some tags' \<and>
          map_of tags' ''latest'' = Some ''1.0.0-beta.2'' \<and>
          example_Date ''2020-08-13T16:53:54.152Z'' = Some n \<and>
          example_Date ''2012-04-23T16:37:11.912Z'' = Some m \<and> m \<le> n)
   \<and> (\<exists>tags'. fst (modifyNpmInfoResponse example_JSON_parse example_JSON_stringify example_Date 24
                  1700000000000 young_body (Some lodash_headers)) = young_rewritten_body \<and>
          dist_tags (fst (rewritePackument False example_Date 24 1700000000000 young_json
                            (Some lodash_headers))) = Some tags' \<and>
          map_of tags' ''latest'' = None)"
proof -
  have a: "\<exists>tags'. fst (modifyNpmInfoResponse example_JSON_parse example_JSON_stringify example_Date 24
                  1700000000000 lodash_body (Some lodash_headers)) = lodash_rewritten_body \<and>
          dist_tags (fst (rewritePackument False example_Date 24 1700000000000 lodash_json
                            (Some lodash_headers))) = Some tags' \<and>
          map_of tags' ''latest'' = Some ''4.17.20''"
  proof -
    define j' where
      "j' = fst (rewritePackument False example_Date 24 1700000000000 lodash_json (Some lodash_headers))"
    define h' where
      "h' = snd (rewritePackument False example_Date 24 1700000000000 lodash_json (Some lodash_headers))"
    have r: "rewritePackument False example_Date 24 1700000000000 lodash_json (Some lodash_headers)
               = (j', h')"
      by (simp add: j'_def h'_def)
    have s: "example_JSON_stringify j' = lodash_rewritten_body"
      unfolding j'_def lodash_rewritePackument by (rule stringify_rewritten)
    have g: "dist_tags lodash_json = Some [(''latest'', ''4.17.21'')]"
      by (simp add: lodash_json_def)
    have d1: "distinct (map fst [(''created'', ''2012-04-23T16:37:11.912Z''),
        (''modified'', ''2023-11-14T20:13:20.000Z''),
        (''4.17.20'', ''2020-08-13T16:53:54.152Z''),
        (''4.17.21'', ''2023-11-14T20:13:20.000Z'')])"
      and d2: "distinct (map fst [(''latest'', ''4.17.21'')])"
      and d3: "[] \<notin> fst ` set [(''created'', ''2012-04-23T16:37:11.912Z''),
        (''modified'', ''2023-11-14T20:13:20.000Z''),
        (''4.17.20'', ''2020-08-13T16:53:54.152Z''),
        (''4.17.21'', ''2023-11-14T20:13:20.000Z'')]"
      and d4: "map_of [(''latest'', ''4.17.21'')] ''latest'' = Some ''4.17.21''"
      and d5: "''4.17.21'' \<noteq> []"
      by simp_all
    have d6: "''4.17.21'' \<in> set (removedVersions False example_Date (cutOff 24 1700000000000)
       [(''created'', ''2012-04-23T16:37:11.912Z''),
        (''modified'', ''2023-11-14T20:13:20.000Z''),
        (''4.17.20'', ''2020-08-13T16:53:54.152Z''),
        (''4.17.21'', ''2023-11-14T20:13:20.000Z'')])"
      by (simp add: lodash_removed)
    show ?thesis
      using C4_latest_recomputed [OF lodash_packumentOf lodash_time g d1 d2 d3 d4 d5 d6 r,
          where stringify = example_JSON_stringify, unfolded lodash_removed]
      apply (elim conjE exE)
      subgoal premises p for t' tags' F P
      proof -
        have F: "F = [(''4.17.20'', ''2020-08-13T16:53:54.152Z'')]"
          unfolding p(5) p(4) by (simp add: versionEntries_def)
        from F have "F \<noteq> []" by simp
        from p(7) [THEN mp, OF this] obtain v d
          where v: "map_of tags' ''latest'' = Some v" "(v, d) \<in> set F" by blast
        from v(2) F have "v = ''4.17.20''" by simp
        with v(1) have l: "map_of tags' ''latest'' = Some ''4.17.20''" by simp
        from p(1) s have "fst (modifyNpmInfoResponse example_JSON_parse example_JSON_stringify
            example_Date 24 1700000000000 lodash_body (Some lodash_headers)) = lodash_rewritten_body"
          by simp
        with p(3) l show ?thesis unfolding j'_def by (intro exI [of _ tags'] conjI)
      qed
      done
  qed
  have b: "\<exists>tags' n m. fst (modifyNpmInfoResponse example_JSON_parse example_JSON_stringify example_Date 24
                  1700000000000 beta_body (Some lodash_headers)) = beta_rewritten_body \<and>
          dist_tags (fst (rewritePackument False example_Date 24 1700000000000 beta_json
                            (Some lodash_headers))) = Some tags' \<and>
          map_of tags' ''latest'' = Some ''1.0.0-beta.2'' \<and>
          example_Date ''2020-08-13T16:53:54.152Z'' = Some n \<and>
          example_Date ''2012-04-23T16:37:11.912Z'' = Some m \<and> m \<le> n"
  proof -
    define j' where
      "j' = fst (rewritePackument False example_Date 24 1700000000000 beta_json (Some lodash_headers))"
    define h' where
      "h' = snd (rewritePackument False example_Date 24 1700000000000 beta_json (Some lodash_headers))"
    have r: "rewritePackument False example_Date 24 1700000000000 beta_json (Some lodash_headers)
               = (j', h')"
      by (simp add: j'_def h'_def)
    have s: "example_JSON_stringify j' = beta_rewritten_body"
      unfolding j'_def beta_rewritePackument by (rule stringify_rewritten)
    have t: "time beta_json = Some [(''created'', ''2012-04-23T16:37:11.912Z''),
        (''modified'', ''2023-11-14T20:13:20.000Z''),
        (''1.0.0-beta.1'', ''2012-04-23T16:37:11.912Z''),
        (''1.0.0-beta.2'', ''2020-08-13T16:53:54.152Z''),
        (''1.0.0'', ''2023-11-14T20:13:20.000Z'')]"
      and g: "dist_tags beta_json = Some [(''latest'', ''1.0.0''), (''beta'', ''1.0.0-beta.2'')]"
      by (simp_all add: beta_json_def)
    have d1: "distinct (map fst [(''created'', ''2012-04-23T16:37:11.912Z''),
        (''modified'', ''2023-11-14T20:13:20.000Z''),
        (''1.0.0-beta.1'', ''2012-04-23T16:37:11.912Z''),
        (''1.0.0-beta.2'', ''2020-08-13T16:53:54.152Z''),
        (''1.0.0'', ''2023-11-14T20:13:20.000Z'')])"
      and d2: "distinct (map fst [(''latest'', ''1.0.0''), (''beta'', ''1.0.0-beta.2'')])"
      and d3: "[] \<notin> fst ` set [(''created'', ''2012-04-23T16:37:11.912Z''),
        (''modified'', ''2023-11-14T20:13:20.000Z''),
        (''1.0.0-beta.1'', ''2012-04-23T16:37:11.912Z''),
        (''1.0.0-beta.2'', ''2020-08-13T16:53:54.152Z''),
        (''1.0.0'', ''2023-11-14T20:13:20.000Z'')]"
      and d4: "map_of [(''latest'', ''1.0.0''), (''beta'', ''1.0.0-beta.2'')] ''latest''
                 = Some ''1.0.0''"
      and d5: "''1.0.0'' \<noteq> []"
      by simp_all
    have d6: "''1.0.0'' \<in> set (removedVersions False example_Date (cutOff 24 1700000000000)
       [(''created'', ''2012-04-23T16:37:11.912Z''),
        (''modified'', ''2023-11-14T20:13:20.000Z''),
        (''1.0.0-beta.1'', ''2012-04-23T16:37:11.912Z''),
        (''1.0.0-beta.2'', ''2020-08-13T16:53:54.152Z''),
        (''1.0.0'', ''2023-11-14T20:13:20.000Z'')])"
      by (simp add: beta_removed)
    show ?thesis
      using C4_latest_recomputed [OF beta_packumentOf t g d1 d2 d3 d4 d5 d6 r,
          where stringify = example_JSON_stringify, unfolded beta_removed]
      apply (elim conjE exE)
      subgoal premises p for t' tags' F P
      proof -
        have F: "F = []"
          unfolding p(5) p(4) by (simp add: versionEntries_def)
        have P: "P = [(''1.0.0-beta.1'', ''2012-04-23T16:37:11.912Z''),
                      (''1.0.0-beta.2'', ''2020-08-13T16:53:54.152Z'')]"
          unfolding p(6) p(4) by (simp add: versionEntries_def)
        from F P have "F = [] \<and> P \<noteq> []" by simp
        from p(8) [THEN mp, OF this] obtain v d
          where v: "map_of tags' ''latest'' = Some v" "(v, d) \<in> set P"
            "\<forall>(v', d') \<in> set P. d' \<le> d"
            "(\<forall>(a, x) \<in> set P. \<forall>(b, y) \<in> set P.
                 x \<le> y \<longrightarrow> (\<exists>m n. example_Date x = Some m \<and> example_Date y = Some n \<and> m \<le> n)) \<longrightarrow>
             (\<exists>n. example_Date d = Some n \<and>
                  (\<forall>(v', d') \<in> set P. \<exists>m. example_Date d' = Some m \<and> m \<le> n))"
          by blast
        from v(2,3) have vd: "v = ''1.0.0-beta.2''" "d = ''2020-08-13T16:53:54.152Z''"
          unfolding P by auto
        have agree: "\<forall>(a, x) \<in> set P. \<forall>(b, y) \<in> set P.
                 x \<le> y \<longrightarrow> (\<exists>m n. example_Date x = Some m \<and> example_Date y = Some n \<and> m \<le> n)"
          unfolding P by (simp add: example_Date_def)
        from v(4) [THEN mp, OF agree] obtain n
          where n: "example_Date ''2020-08-13T16:53:54.152Z'' = Some n"
            "\<forall>(v', d') \<in> set P. \<exists>m. example_Date d' = Some m \<and> m \<le> n"
          unfolding vd by blast
        from n(2) obtain m where m: "example_Date ''2012-04-23T16:37:11.912Z'' = Some m" "m \<le> n"
          unfolding P by auto
        from v(1) vd(1) have l: "map_of tags' ''latest'' = Some ''1.0.0-beta.2''" by simp
        from p(1) s have "fst (modifyNpmInfoResponse example_JSON_parse example_JSON_stringify
            example_Date 24 1700000000000 beta_body (Some lodash_headers)) = beta_rewritten_body"
          by simp
        with p(3) l n(1) m show ?thesis
          unfolding j'_def by (intro exI [of _ tags'] exI [of _ n] exI [of _ m] conjI)
      qed
      done
  qed
  have c: "\<exists>tags'. fst (modifyNpmInfoResponse example_JSON_parse example_JSON_stringify example_Date 24
                  1700000000000 young_body (Some lodash_headers)) = young_rewritten_body \<and>
          dist_tags (fst (rewritePackument False example_Date 24 1700000000000 young_json
                            (Some lodash_headers))) = Some tags' \<and>
          map_of tags' ''latest'' = None"
  proof -
    define j' where
      "j' = fst (rewritePackument False example_Date 24 1700000000000 young_json (Some lodash_headers))"
    define h' where
      "h' = snd (rewritePackument False example_Date 24 1700000000000 young_json (Some lodash_headers))"
    have r: "rewritePackument False example_Date 24 1700000000000 young_json (Some lodash_headers)
               = (j', h')"
      by (simp add: j'_def h'_def)
    have s: "example_JSON_stringify j' = young_rewritten_body"
      unfolding j'_def young_rewritePackument by (rule stringify_rewritten)
    have t: "time young_json = Some [(''created'', ''2023-11-14T20:13:20.000Z''),
        (''modified'', ''2023-11-14T20:13:20.000Z''),
        (''1.0.0'', ''2023-11-14T20:13:20.000Z'')]"
      and g: "dist_tags young_json = Some [(''latest'', ''1.0.0'')]"
      by (simp_all add: young_json_def)
    have d1: "distinct (map fst [(''created'', ''2023-11-14T20:13:20.000Z''),
        (''modified'', ''2023-11-14T20:13:20.000Z''),
        (''1.0.0'', ''2023-11-14T20:13:20.000Z'')])"
      and d2: "distinct (map fst [(''latest'', ''1.0.0'')])"
      and d3: "[] \<notin> fst ` set [(''created'', ''2023-11-14T20:13:20.000Z''),
        (''modified'', ''2023-11-14T20:13:20.000Z''),
        (''1.0.0'', ''2023-11-14T20:13:20.000Z'')]"
      and d4: "map_of [(''latest'', ''1.0.0'')] ''latest'' = Some ''1.0.0''"
      and d5: "''1.0.0'' \<noteq> []"
      by simp_all
    have d6: "''1.0.0'' \<in> set (removedVersions False example_Date (cutOff 24 1700000000000)
       [(''created'', ''2023-11-14T20:13:20.000Z''),
        (''modified'', ''2023-11-14T20:13:20.000Z''),
        (''1.0.0'', ''2023-11-14T20:13:20.000Z'')])"
      by (simp add: young_removed)
    show ?thesis
      using C4_latest_recomputed [OF young_packumentOf t g d1 d2 d3 d4 d5 d6 r,
          where stringify = example_JSON_stringify, unfolded young_removed]
      apply (elim conjE exE)
      subgoal premises p for t' tags' F P
      proof -
        have "versionEntries t' = []"
          unfolding p(4) by (simp add: versionEntries_def)
        with p(9) have l: "map_of tags' ''latest'' = None" by simp
        from p(1) s have "fst (modifyNpmInfoResponse example_JSON_parse example_JSON_stringify
            example_Date 24 1700000000000 young_body (Some lodash_headers)) = young_rewritten_body"
          by simp
        with p(3) l show ?thesis unfolding j'_def by (intro exI [of _ tags'] conjI)
      qed
      done
  qed
  from a b c show ?thesis by (intro conjI)
qed

text \<open>
  C4 as stated fails where the timestamps are not of one format. In the packument of
  \<open>mixed_body\<close> the rewriter removes \<open>2.0.0\<close>, which was \<open>latest\<close>, and the survivors
  \<open>1.0.0\<close> and \<open>1.1.0\<close> have no \<open>-\<close>; \<open>latest\<close> becomes \<open>1.0.0\<close>, whose timestamp is the
  greater string, while the date of \<open>1.1.0\<close> is the later one.
\<close>

theorem C4_timestamp_order_counterexample:
  "modifyNpmInfoResponse example_JSON_parse example_JSON_stringify example_Date 24
     1700000000000 mixed_body (Some lodash_headers)
     = (mixed_rewritten_body, Some (deleteCachingHeaders lodash_headers))
   \<and> dist_tags (fst (rewritePackument False example_Date 24 1700000000000 mixed_json
                      (Some lodash_headers))) = Some [(''latest'', ''1.0.0'')]
   \<and> time (fst (rewritePackument False example_Date 24 1700000000000 mixed_json
                 (Some lodash_headers)))
     = Some [(''created'', ''2012-04-23T16:37:11.912Z''),
             (''modified'', ''2023-11-14T20:13:20.000Z''),
             (''1.0.0'', ''2020-01-01T00:00:00Z''),
             (''1.1.0'', ''2020-01-01T00:00:00.500Z'')]
   \<and> example_Date ''2020-01-01T00:00:00Z'' = Some 1577836800000
   \<and> example_Date ''2020-01-01T00:00:00.500Z'' = Some 1577836800500
   \<and> ''2020-01-01T00:00:00.500Z'' < ''2020-01-01T00:00:00Z''"
proof -
  have t: "time mixed_json = Some [(''created'', ''2012-04-23T16:37:11.912Z''),
      (''modified'', ''2023-11-14T20:13:20.000Z''),
      (''1.0.0'', ''2020-01-01T00:00:00Z''),
      (''1.1.0'', ''2020-01-01T00:00:00.500Z''),
      (''2.0.0'', ''2023-11-14T20:13:20.000Z'')]"
    by (simp add: mixed_json_def)
  have h: "snd (rewritePackument False example_Date 24 1700000000000 mixed_json (Some lodash_headers))
             = Some (deleteCachingHeaders lodash_headers)"
    by (simp add: rewritePackument_headers [OF t] mixed_removed)
  have 1: "modifyNpmInfoResponse example_JSON_parse example_JSON_stringify example_Date 24
     1700000000000 mixed_body (Some lodash_headers)
     = (mixed_rewritten_body, Some (deleteCachingHeaders lodash_headers))"
    by (simp add: modifyNpmInfoResponse_eq mixed_packumentOf mixed_rewritePackument
        stringify_rewritten h)
  have 2: "example_Date ''2020-01-01T00:00:00Z'' = Some 1577836800000"
    "example_Date ''2020-01-01T00:00:00.500Z'' = Some 1577836800500"
    by (simp_all add: example_Date_def)
  have 3: "''2020-01-01T00:00:00.500Z'' < ''2020-01-01T00:00:00Z''"
    by simp
  from 1 2 3 show ?thesis
    by (simp only: mixed_rewritePackument) (simp add: mixed_rewritten_def)
qed

lemma removedVersions_idem:
  "removedVersions e D c (filter (\<lambda>(k, x). k \<notin> set (removedVersions e D c t)) t) = []"
  by (auto simp add: removedVersions_def versionEntries_def filter_empty_conv image_iff)

lemma rewritePackument_idem:
  assumes "time j = Some t"
  shows "fst (rewritePackument e D N now (fst (rewritePackument e D N now j h)) hb)
           = fst (rewritePackument e D N now j h)"
  using rewritePackument_time [OF assms, of e D N now h]
  by (rule rewritePackument_unchanged) (rule removedVersions_idem)

lemma packumentOf_content_type:
  assumes "getHeaderValueAsString hb ''content-type'' = getHeaderValueAsString h ''content-type''"
  shows "packumentOf P body hb = packumentOf P body h"
  using assms by (simp add: packumentOf_def)

lemma second_pass:
  assumes "packumentOf P body h = Some (j, e)"
    and "P (S (fst (rewritePackument e D N now j h))) = Some (fst (rewritePackument e D N now j h))"
    and "getHeaderValueAsString hb ''content-type'' = getHeaderValueAsString h ''content-type''"
  shows "fst (modifyNpmInfoResponse P S D N now (S (fst (rewritePackument e D N now j h))) hb)
           = S (fst (rewritePackument e D N now j h))"
proof -
  define j1 where "j1 = fst (rewritePackument e D N now j h)"
  from packumentOf_fields(2) [OF assms(1)] obtain t where t: "time j = Some t" by auto
  have n: "isPackageExemptFromAgeCheck (name j1) = Inr e"
    unfolding j1_def rewritePackument_name by (rule packumentOf_fields(5) [OF assms(1)])
  show ?thesis
  proof (cases "packumentOf P (S j1) hb")
    case None
    then show ?thesis
      by (simp add: modifyNpmInfoResponse_eq j1_def [symmetric])
  next
    case (Some a)
    then obtain j2 e2 where a: "packumentOf P (S j1) hb = Some (j2, e2)" by (cases a) auto
    from packumentOf_fields(1) [OF a] assms(2) have j2: "j2 = j1" by (simp add: j1_def)
    from packumentOf_fields(5) [OF a] n have e2: "e2 = e" by (simp add: j2)
    have "fst (rewritePackument e D N now j1 hb) = j1"
      unfolding j1_def by (rule rewritePackument_idem [OF t])
    then show ?thesis
      by (simp add: modifyNpmInfoResponse_eq j1_def [symmetric] a j2 e2)
  qed
qed

text \<open>
  C8. Given that the document the first pass serialises parses back to itself, running
  \<open>modifyNpmInfoResponse\<close> on its own output at the same clock reading returns that
  output, with the headers as they were before the first pass and with the headers as
  the first pass left them.
\<close>

theorem C8_rewriter_idempotent:
  assumes "\<And>j e. packumentOf parse body headers = Some (j, e) \<Longrightarrow>
             parse (stringify (fst (rewritePackument e Date N now j headers)))
               = Some (fst (rewritePackument e Date N now j headers))"
  shows "fst (modifyNpmInfoResponse parse stringify Date N now
                (fst (modifyNpmInfoResponse parse stringify Date N now body headers)) headers)
           = fst (modifyNpmInfoResponse parse stringify Date N now body headers)
       \<and> fst (modifyNpmInfoResponse parse stringify Date N now
                (fst (modifyNpmInfoResponse parse stringify Date N now body headers))
                (snd (modifyNpmInfoResponse parse stringify Date N now body headers)))
           = fst (modifyNpmInfoResponse parse stringify Date N now body headers)"
proof (cases "packumentOf parse body headers")
  case None
  then show ?thesis by (simp add: modifyNpmInfoResponse_eq)
next
  case (Some a)
  then obtain j e where a: "packumentOf parse body headers = Some (j, e)" by (cases a) auto
  from packumentOf_fields(2) [OF a] obtain t where t: "time j = Some t" by auto
  have c: "getHeaderValueAsString (snd (rewritePackument e Date N now j headers)) ''content-type''
             = getHeaderValueAsString headers ''content-type''"
    by (cases headers)
      (simp_all add: rewritePackument_headers [OF t] getHeaderValueAsString_def
        deleteCachingHeaders_def)
  show ?thesis
    using second_pass [where S = stringify and D = Date and now = now and hb = headers,
        OF a assms [OF a] refl]
      second_pass [where S = stringify and D = Date and now = now, OF a assms [OF a] c]
    by (simp add: modifyNpmInfoResponse_eq a)
qed


lemma lodash_roundtrip:
  "example_JSON_parse (example_JSON_stringify lodash_rewritten) = Some lodash_rewritten"
  by (simp add: example_JSON_parse_def example_JSON_stringify_def lodash_rewritten_def
      lodash_json_def lodash_body_def lodash_rewritten_body_def)

theorem C8_witness:
  "fst (modifyNpmInfoResponse example_JSON_parse example_JSON_stringify example_Date 24
          1700000000000 lodash_body (Some lodash_headers)) = lodash_rewritten_body
   \<and> fst (modifyNpmInfoResponse example_JSON_parse example_JSON_stringify example_Date 24
          1700000000000 lodash_rewritten_body (Some lodash_headers)) = lodash_rewritten_body"
proof -
  have s: "example_JSON_stringify lodash_rewritten = lodash_rewritten_body"
    by (simp add: example_JSON_stringify_def lodash_rewritten_def lodash_json_def)
  have 1: "fst (modifyNpmInfoResponse example_JSON_parse example_JSON_stringify example_Date 24
          1700000000000 lodash_body (Some lodash_headers)) = lodash_rewritten_body"
    by (simp add: modifyNpmInfoResponse_eq lodash_packumentOf lodash_rewritePackument s)
  have h: "example_JSON_parse (example_JSON_stringify
             (fst (rewritePackument e example_Date 24 1700000000000 j (Some lodash_headers))))
           = Some (fst (rewritePackument e example_Date 24 1700000000000 j (Some lodash_headers)))"
    if "packumentOf example_JSON_parse lodash_body (Some lodash_headers) = Some (j, e)" for j e
    using that by (simp add: lodash_packumentOf lodash_rewritePackument lodash_roundtrip)
  from C8_rewriter_idempotent [of example_JSON_parse lodash_body "Some lodash_headers"
      example_JSON_stringify example_Date 24 1700000000000, OF h]
  show ?thesis by (simp add: 1)
qed

section \<open>Properties of the age threshold\<close>










end
